theory Spec2Isabelle
  imports Main "HOL-Library.Word"
begin

section \<open>The resumable HTTP read-seeker of \<open>core/remotes/docker/httpreadseeker.go\<close>\<close>

text \<open>
  The Go type \<open>httpReadSeeker\<close> wraps a connection opener
  \<open>open(offset) (io.ReadCloser, error)\<close> and offers \<open>Read\<close>, \<open>ReadAt\<close>,
  \<open>Seek\<close> and \<open>Close\<close>. The opener and the connections it returns are
  external collaborators. They are modelled as transitions of an arbitrary
  outside world \<open>'w\<close>; a connection is a handle \<open>'c\<close> into that world.
  Every call the reader makes to a collaborator (opener, connection read,
  connection close, error log) is appended to a trace, so that theorems can
  speak about which calls happened and in which order.
\<close>

subsection \<open>Values\<close>

type_synonym byte = "8 word"

text \<open>Go's \<open>int64\<close>; \<open>int\<close> is taken as 64 bits wide as well.\<close>

type_synonym int64 = "64 word"

text \<open>
  Error values. The sentinels are compared with \<open>==\<close> by the code;
  \<open>Errorf fmt args e\<close> is \<open>fmt.Errorf(fmt, args..., e)\<close> with one \<open>%w\<close> verb
  wrapping \<open>e\<close> (the \<open>%d\<close> arguments are kept unformatted).
\<close>

datatype error =
    EOF
  | ErrUnexpectedEOF
  | ErrUnavailable
  | ErrInvalidArgument
  | ErrNotImplemented
  | Errorf string "int64 list" error
  | Other string

text \<open>Go's \<open>errors.Is\<close>: the error itself or anything it wraps.\<close>

fun errors_Is :: "error \<Rightarrow> error \<Rightarrow> bool" where
  "errors_Is (Errorf f a e) t = (Errorf f a e = t \<or> errors_Is e t)"
| "errors_Is e t = (e = t)"

definition maxRetry :: int64 where
  "maxRetry = 3"

text \<open>\<open>io.SeekStart\<close>, \<open>io.SeekCurrent\<close> and \<open>io.SeekEnd\<close>.\<close>

definition SeekStart :: int where "SeekStart = 0"
definition SeekCurrent :: int where "SeekCurrent = 1"
definition SeekEnd :: int where "SeekEnd = 2"

subsection \<open>The outside world\<close>

text \<open>The calls made to collaborators, in the order they are made.\<close>

datatype 'c event =
    EvOpen int64
  | EvRead 'c nat
  | EvClose 'c
  | EvLog string error

text \<open>
  The methods of the connections: \<open>conn_Read c L\<close> is \<open>c.Read(p)\<close> with
  \<open>len(p) = L\<close>, giving the bytes stored into \<open>p\<close> (their number is the
  returned \<open>n\<close>) and the returned error; \<open>conn_Close c\<close> is \<open>c.Close()\<close>.
\<close>

record ('c, 'w) transport =
  conn_Read :: "'c \<Rightarrow> nat \<Rightarrow> 'w \<Rightarrow> (byte list \<times> error option) \<times> 'w"
  conn_Close :: "'c \<Rightarrow> 'w \<Rightarrow> error option \<times> 'w"

record ('c, 'w) env =
  world :: 'w
  trace :: "'c event list"

text \<open>
  What the field \<open>rc\<close> may hold: a connection obtained from the opener, or
  the synthetic \<open>io.NopCloser(bytes.NewReader([]byte{}))\<close>.
\<close>

datatype 'c readcloser = Conn 'c | NopCloser

text \<open>
  The opener \<open>open(offset)\<close>: a transition of the world that gives an error
  or a connection.
\<close>

type_synonym ('c, 'w) opener = "int64 \<Rightarrow> 'w \<Rightarrow> (error + 'c) \<times> 'w"

text \<open>The struct; \<open>size\<close> is \<open>- 1\<close> when the size is unknown, \<open>open\<close> may be nil.\<close>

record ('c, 'w) httpReadSeeker =
  size_hrs :: int64
  offset :: int64
  rc :: "'c readcloser option"
  open_hrs :: "('c, 'w) opener option"
  closed :: bool
  errsWithNoProgress :: int64

definition log_Error :: "string \<Rightarrow> error \<Rightarrow> ('c, 'w) env \<Rightarrow> ('c, 'w) env" where
  "log_Error msg err e = e\<lparr>trace := trace e @ [EvLog msg err]\<rparr>"

fun rc_Read :: "('c, 'w) transport \<Rightarrow> 'c readcloser \<Rightarrow> nat \<Rightarrow> ('c, 'w) env
    \<Rightarrow> (byte list \<times> error option) \<times> ('c, 'w) env" where
  "rc_Read T (Conn c) L e =
     (case conn_Read T c L (world e) of
        (r, w') \<Rightarrow> (r, e\<lparr>world := w', trace := trace e @ [EvRead c L]\<rparr>))"
| "rc_Read T NopCloser L e = (([], Some EOF), e)"

fun rc_Close :: "('c, 'w) transport \<Rightarrow> 'c readcloser \<Rightarrow> ('c, 'w) env
    \<Rightarrow> error option \<times> ('c, 'w) env" where
  "rc_Close T (Conn c) e =
     (case conn_Close T c (world e) of
        (r, w') \<Rightarrow> (r, e\<lparr>world := w', trace := trace e @ [EvClose c]\<rparr>))"
| "rc_Close T NopCloser e = (None, e)"

text \<open>
  The recurring fragment
  \<open>if hrs.rc != nil { if err := hrs.rc.Close(); err != nil { log } }\<close>.
\<close>

definition close_held :: "string \<Rightarrow> ('c, 'w) transport \<Rightarrow> ('c, 'w) httpReadSeeker
    \<Rightarrow> ('c, 'w) env \<Rightarrow> ('c, 'w) env" where
  "close_held msg T h e =
     (case rc h of
        None \<Rightarrow> e
      | Some r \<Rightarrow>
          (case rc_Close T r e of
             (None, e') \<Rightarrow> e'
           | (Some clsErr, e') \<Rightarrow> log_Error msg clsErr e'))"

subsection \<open>The operations\<close>

definition newHTTPReadSeeker :: "int64 \<Rightarrow> ('c, 'w) opener option \<Rightarrow> ('c, 'w) httpReadSeeker" where
  "newHTTPReadSeeker sz opn =
     \<lparr>size_hrs = sz, offset = 0, rc = None, open_hrs = opn, closed = False,
      errsWithNoProgress = 0\<rparr>"

definition reader :: "('c, 'w) transport \<Rightarrow> ('c, 'w) httpReadSeeker \<Rightarrow> ('c, 'w) env
    \<Rightarrow> (error + 'c readcloser) \<times> ('c, 'w) httpReadSeeker \<times> ('c, 'w) env" where
  "reader T h e =
     (case rc h of
        Some r \<Rightarrow> (Inr r, h, e)
      | None \<Rightarrow>
          if size_hrs h = - 1 \<or> offset h <s size_hrs h then
            (case open_hrs h of
               None \<Rightarrow> (Inl (Errorf ''cannot open: %w'' [] ErrNotImplemented), h, e)
             | Some opn \<Rightarrow>
                 (case opn (offset h) (world e) of
                    (Inl err, w') \<Rightarrow>
                      (Inl (Errorf ''httpReadSeeker: failed open: %w'' [] err), h,
                       e\<lparr>world := w', trace := trace e @ [EvOpen (offset h)]\<rparr>)
                  | (Inr c, w') \<Rightarrow>
                      (let e1 = e\<lparr>world := w', trace := trace e @ [EvOpen (offset h)]\<rparr>;
                           e2 = close_held ''httpReadSeeker: failed to close ReadCloser'' T h e1
                       in (Inr (Conn c), h\<lparr>rc := Some (Conn c)\<rparr>, e2))))
          else (Inr NopCloser, h\<lparr>rc := Some NopCloser\<rparr>, e))"

definition Read :: "('c, 'w) transport \<Rightarrow> ('c, 'w) httpReadSeeker \<Rightarrow> nat \<Rightarrow> ('c, 'w) env
    \<Rightarrow> (byte list \<times> error option) \<times> ('c, 'w) httpReadSeeker \<times> ('c, 'w) env" where
  "Read T h L e =
     (if closed h then (([], Some EOF), h, e)
      else
        (case reader T h e of
           (Inl err, h1, e1) \<Rightarrow> (([], Some err), h1, e1)
         | (Inr rd, h1, e1) \<Rightarrow>
             (case rc_Read T rd L e1 of
                ((bs, err), e2) \<Rightarrow>
                  (let h2 = h1\<lparr>offset := offset h1 + of_nat (length bs)\<rparr>;
                       h3 = (if 0 < length bs \<or> err = None
                             then h2\<lparr>errsWithNoProgress := 0\<rparr> else h2)
                   in if err = Some ErrUnexpectedEOF then
                        (let h4 = (if length bs = 0
                                   then h3\<lparr>errsWithNoProgress := errsWithNoProgress h3 + 1\<rparr>
                                   else h3)
                         in if length bs = 0 \<and> maxRetry <s errsWithNoProgress h4
                            then ((bs, err), h4, e2)
                            else
                              (let e3 = close_held ''httpReadSeeker: failed to close ReadCloser''
                                          T h4 e2;
                                   h5 = h4\<lparr>rc := None\<rparr>
                               in (case reader T h5 e3 of
                                     (Inr rd2, h6, e4) \<Rightarrow> ((bs, None), h6, e4)
                                   | (Inl err2, h6, e4) \<Rightarrow> ((bs, err), h6, e4))))
                      else if err = Some EOF then
                        (let e3 = close_held
                                    ''httpReadSeeker: failed to close ReadCloser after io.EOF''
                                    T h3 e2
                         in ((bs, err), h3\<lparr>rc := None\<rparr>, e3))
                      else ((bs, err), h3, e2)))))"

definition Close :: "('c, 'w) transport \<Rightarrow> ('c, 'w) httpReadSeeker \<Rightarrow> ('c, 'w) env
    \<Rightarrow> error option \<times> ('c, 'w) httpReadSeeker \<times> ('c, 'w) env" where
  "Close T h e =
     (if closed h then (None, h, e)
      else
        (let h1 = h\<lparr>closed := True\<rparr>
         in (case rc h1 of
               Some r \<Rightarrow> (case rc_Close T r e of (err, e') \<Rightarrow> (err, h1, e'))
             | None \<Rightarrow> (None, h1, e))))"

text \<open>The \<open>switch whence\<close> of \<open>Seek\<close>: the absolute position, or the error returned.\<close>

definition seek_abs :: "('c, 'w) httpReadSeeker \<Rightarrow> int64 \<Rightarrow> int \<Rightarrow> error + int64" where
  "seek_abs h off whence =
     (if whence = SeekStart then Inr off
      else if whence = SeekCurrent then Inr (offset h + off)
      else if whence = SeekEnd then
        (if size_hrs h = - 1
         then Inl (Errorf ''Fetcher.Seek: unknown size, cannot seek from end: %w'' []
                     ErrUnavailable)
         else Inr (size_hrs h + off))
      else Inl (Errorf ''Fetcher.Seek: invalid whence: %w'' [] ErrInvalidArgument))"

definition Seek :: "('c, 'w) transport \<Rightarrow> ('c, 'w) httpReadSeeker \<Rightarrow> int64 \<Rightarrow> int
    \<Rightarrow> ('c, 'w) env \<Rightarrow> (int64 \<times> error option) \<times> ('c, 'w) httpReadSeeker \<times> ('c, 'w) env" where
  "Seek T h off whence e =
     (if closed h then ((0, Some (Errorf ''Fetcher.Seek: closed: %w'' [] ErrUnavailable)), h, e)
      else
        (case seek_abs h off whence of
           Inl err \<Rightarrow> ((0, Some err), h, e)
         | Inr abs' \<Rightarrow>
             if abs' <s 0 then
               ((0, Some (Errorf ''Fetcher.Seek: negative offset: %w'' [] ErrInvalidArgument)),
                h, e)
             else if abs' \<noteq> offset h then
               (let e1 = close_held ''Fetcher.Seek: failed to close ReadCloser'' T h e;
                    h1 = (case rc h of Some r \<Rightarrow> h\<lparr>rc := None\<rparr> | None \<Rightarrow> h);
                    h2 = h1\<lparr>offset := abs'\<rparr>
                in ((offset h2, None), h2, e1))
             else ((offset h, None), h, e)))"

text \<open>
  Go's standard library \<open>io.ReadFull(r, buf)\<close>, which is
  \<open>io.ReadAtLeast(r, buf, len(buf))\<close>: the loop
  \<open>for n < min && err == nil { nn, err = r.Read(buf[n:]); n += nn }\<close>.
  The loop need not end (a connection may return no bytes and no error for
  ever), so it is a partial function: \<open>None\<close> is "does not return".
  \<open>acc\<close> is \<open>buf[:n]\<close>.
\<close>

partial_function (option) ReadAtLeast_loop :: "('c, 'w) transport \<Rightarrow> 'c \<Rightarrow> nat \<Rightarrow> nat
    \<Rightarrow> byte list \<Rightarrow> error option \<Rightarrow> ('c, 'w) env
    \<Rightarrow> ((byte list \<times> error option) \<times> ('c, 'w) env) option" where
  "ReadAtLeast_loop T c L min' acc err e =
     (if length acc < min' \<and> err = None then
        (case rc_Read T (Conn c) (L - length acc) e of
           ((bs, err'), e') \<Rightarrow> ReadAtLeast_loop T c L min' (acc @ bs) err' e')
      else Some ((acc, err), e))"

definition ReadFull :: "('c, 'w) transport \<Rightarrow> 'c \<Rightarrow> nat \<Rightarrow> ('c, 'w) env
    \<Rightarrow> ((byte list \<times> error option) \<times> ('c, 'w) env) option" where
  "ReadFull T c L e =
     (case ReadAtLeast_loop T c L L [] None e of
        None \<Rightarrow> None
      | Some ((acc, err), e') \<Rightarrow>
          Some ((acc, (if L \<le> length acc then None
                       else if 0 < length acc \<and> err = Some EOF then Some ErrUnexpectedEOF
                       else err)), e'))"

text \<open>\<open>ReadAt\<close>; the deferred close runs after \<open>io.ReadFull\<close> has returned.\<close>

definition ReadAt :: "('c, 'w) transport \<Rightarrow> ('c, 'w) httpReadSeeker \<Rightarrow> nat \<Rightarrow> int64
    \<Rightarrow> ('c, 'w) env
    \<Rightarrow> ((byte list \<times> error option) \<times> ('c, 'w) httpReadSeeker \<times> ('c, 'w) env) option" where
  "ReadAt T h L off e =
     (if closed h then
        Some (([], Some (Errorf ''httpReadSeeker.ReadAt: closed: %w'' [] ErrUnavailable)), h, e)
      else if off <s 0 then
        Some (([], Some (Errorf ''httpReadSeeker.ReadAt: negative offset: %w'' []
                           ErrInvalidArgument)), h, e)
      else if size_hrs h \<noteq> - 1 \<and> size_hrs h \<le>s off then
        Some (([], Some EOF), h, e)
      else
        (case open_hrs h of
           None \<Rightarrow>
             Some (([], Some (Errorf ''httpReadSeeker.ReadAt: cannot open: %w'' []
                                ErrNotImplemented)), h, e)
         | Some opn \<Rightarrow>
             (case opn off (world e) of
                (Inl err, w') \<Rightarrow>
                  Some (([], Some (Errorf ''httpReadSeeker.ReadAt: failed to open at offset %d: %w''
                                     [off] err)), h,
                        e\<lparr>world := w', trace := trace e @ [EvOpen off]\<rparr>)
              | (Inr c, w') \<Rightarrow>
                  (case ReadFull T c L (e\<lparr>world := w', trace := trace e @ [EvOpen off]\<rparr>) of
                     None \<Rightarrow> None
                   | Some (res, e1) \<Rightarrow>
                       (case rc_Close T (Conn c) e1 of
                          (None, e2) \<Rightarrow> Some (res, h, e2)
                        | (Some closeErr, e2) \<Rightarrow>
                            Some (res, h,
                                  log_Error ''httpReadSeeker.ReadAt: failed to close ReadCloser''
                                    closeErr e2))))))"

subsection \<open>A concrete transport: a blob server with a flaky connection\<close>

text \<open>
  An executable instance of the collaborators. The world holds an immutable
  \<open>blob\<close>; the opener always succeeds and returns a fresh connection
  positioned at the requested offset (connection handles are the indices of
  \<open>conns\<close>, which holds the position of every connection opened so far).
  While \<open>fails_left\<close> is positive, a read on a connection that stands at
  position \<open>fail_at\<close> returns no bytes and \<open>io.ErrUnexpectedEOF\<close>, and
  consumes one failure; reads before that position stop there. Every close
  returns \<open>close_result\<close>.
\<close>

record flaky =
  blob :: "byte list"
  fail_at :: nat
  fails_left :: nat
  conns :: "nat list"
  close_result :: "error option"

definition flaky_open :: "(nat, flaky) opener" where
  "flaky_open off w = (Inr (length (conns w)), w\<lparr>conns := conns w @ [nat (sint off)]\<rparr>)"

definition flaky_Read :: "nat \<Rightarrow> nat \<Rightarrow> flaky \<Rightarrow> (byte list \<times> error option) \<times> flaky" where
  "flaky_Read c L w =
     (if length (conns w) \<le> c then (([], Some (Other ''unknown connection'')), w)
      else
        (let p = conns w ! c
         in if p = fail_at w \<and> 0 < fails_left w then
              (([], Some ErrUnexpectedEOF), w\<lparr>fails_left := fails_left w - 1\<rparr>)
            else if length (blob w) \<le> p then (([], Some EOF), w)
            else
              (let lim = (if p < fail_at w \<and> 0 < fails_left w then fail_at w
                          else length (blob w));
                   chunk = take (min L (lim - p)) (drop p (blob w))
               in ((chunk, None), w\<lparr>conns := (conns w)[c := p + length chunk]\<rparr>))))"

definition flaky_Close :: "nat \<Rightarrow> flaky \<Rightarrow> error option \<times> flaky" where
  "flaky_Close c w = (close_result w, w)"

definition flakyT :: "(nat, flaky) transport" where
  "flakyT = \<lparr>conn_Read = flaky_Read, conn_Close = flaky_Close\<rparr>"

definition flaky_env :: "byte list \<Rightarrow> nat \<Rightarrow> nat \<Rightarrow> (nat, flaky) env" where
  "flaky_env bs N k =
     \<lparr>world = \<lparr>blob = bs, fail_at = N, fails_left = k, conns = [], close_result = None\<rparr>,
      trace = []\<rparr>"

subsection \<open>Callers and observations\<close>

text \<open>A caller making one \<open>Read\<close> per buffer length, whatever each call returns.\<close>

fun Reads :: "('c, 'w) transport \<Rightarrow> ('c, 'w) httpReadSeeker \<Rightarrow> nat list \<Rightarrow> ('c, 'w) env
    \<Rightarrow> (byte list \<times> error option) list \<times> ('c, 'w) httpReadSeeker \<times> ('c, 'w) env" where
  "Reads T h [] e = ([], h, e)"
| "Reads T h (L # Ls) e =
     (case Read T h L e of
        (r, h1, e1) \<Rightarrow> (case Reads T h1 Ls e1 of (rs, h2, e2) \<Rightarrow> (r # rs, h2, e2)))"

text \<open>
  \<open>released msg T r e e'\<close>: the environment \<open>e'\<close> is \<open>e\<close> after \<open>r.Close()\<close>,
  with a close error logged under \<open>msg\<close>. Closing the synthetic empty
  stream does nothing.
\<close>

definition released :: "string \<Rightarrow> ('c, 'w) transport \<Rightarrow> 'c readcloser \<Rightarrow> ('c, 'w) env
    \<Rightarrow> ('c, 'w) env \<Rightarrow> bool" where
  "released msg T r e e' =
     (case r of
        NopCloser \<Rightarrow> e' = e
      | Conn c \<Rightarrow>
          world e' = snd (conn_Close T c (world e))
          \<and> trace e' =
              trace e @ EvClose c #
                (case fst (conn_Close T c (world e)) of
                   None \<Rightarrow> []
                 | Some clsErr \<Rightarrow> [EvLog msg clsErr]))"

text \<open>
  What the connection's own \<open>Read\<close> returns inside \<open>hrs.Read\<close> (the
  \<open>n, err = rd.Read(p)\<close> of the source), if that line is reached.
\<close>

definition underlying_Read :: "('c, 'w) transport \<Rightarrow> ('c, 'w) httpReadSeeker \<Rightarrow> nat
    \<Rightarrow> ('c, 'w) env \<Rightarrow> (byte list \<times> error option) option" where
  "underlying_Read T h L e =
     (if closed h then None
      else
        (case reader T h e of
           (Inl err, h1, e1) \<Rightarrow> None
         | (Inr rd, h1, e1) \<Rightarrow> Some (fst (rc_Read T rd L e1))))"

text \<open>
  Once \<open>closed\<close> is set, a connection still referred to by \<open>rc\<close> has been
  closed, and that close is the last call made to any collaborator.
\<close>

definition closed_released :: "('c, 'w) httpReadSeeker \<Rightarrow> ('c, 'w) env \<Rightarrow> bool" where
  "closed_released h e =
     (closed h \<longrightarrow>
        (case rc h of
           Some (Conn c) \<Rightarrow> trace e \<noteq> [] \<and> last (trace e) = EvClose c
         | _ \<Rightarrow> True))"

text \<open>
  Two properties a connection may have: its \<open>Read\<close> never returns more bytes
  than the buffer holds (the \<open>io.Reader\<close> contract), and its \<open>Read\<close> into a
  non-empty buffer returns a byte or an error.
\<close>

definition honours_Read :: "('c, 'w) transport \<Rightarrow> 'c \<Rightarrow> bool" where
  "honours_Read T c = (\<forall>n w. length (fst (fst (conn_Read T c n w))) \<le> n)"

definition progresses :: "('c, 'w) transport \<Rightarrow> 'c \<Rightarrow> bool" where
  "progresses T c =
     (\<forall>n w. 0 < n \<longrightarrow>
        fst (fst (conn_Read T c n w)) \<noteq> [] \<or> snd (fst (conn_Read T c n w)) \<noteq> None)"

text \<open>Events that are all reads of the connection \<open>c\<close>.\<close>

definition only_reads :: "'c \<Rightarrow> 'c event list \<Rightarrow> bool" where
  "only_reads c evs = (\<forall>x \<in> set evs. \<exists>n. x = EvRead c n)"


text \<open>The offsets the opener was called with, in order.\<close>

definition opens :: "'c event list \<Rightarrow> int64 list" where
  "opens tr = [off. EvOpen off \<leftarrow> tr]"

text \<open>The reader and environment states that occur on the flaky transport.\<close>

definition flaky_hrs :: "int64 \<Rightarrow> nat \<Rightarrow> nat readcloser option \<Rightarrow> nat
    \<Rightarrow> (nat, flaky) httpReadSeeker" where
  "flaky_hrs sz p R j =
     \<lparr>size_hrs = sz, offset = of_nat p, rc = R, open_hrs = Some flaky_open, closed = False,
      errsWithNoProgress = of_nat j\<rparr>"

definition flaky_st :: "byte list \<Rightarrow> nat \<Rightarrow> nat \<Rightarrow> nat list \<Rightarrow> nat event list
    \<Rightarrow> (nat, flaky) env" where
  "flaky_st bs N f cs tr =
     \<lparr>world = \<lparr>blob = bs, fail_at = N, fails_left = f, conns = cs, close_result = None\<rparr>,
      trace = tr\<rparr>"

text \<open>An opener that serves only the first connection.\<close>

definition flaky_open_once :: "(nat, flaky) opener" where
  "flaky_open_once off w =
     (if conns w = [] then flaky_open off w else (Inl (Other ''connection refused''), w))"


subsection \<open>A second concrete transport: a server that ends connections early\<close>

text \<open>
  Every connection of this server delivers at most \<open>rlimit\<close> bytes and then
  reports a clean \<open>io.EOF\<close>, also in the middle of the blob. \<open>rconns\<close>
  holds, for every connection opened, its position and the bytes it may
  still deliver.
\<close>

record ranged =
  rblob :: "byte list"
  rlimit :: nat
  rconns :: "(nat \<times> nat) list"

definition ranged_open :: "(nat, ranged) opener" where
  "ranged_open off w =
     (Inr (length (rconns w)), w\<lparr>rconns := rconns w @ [(nat (sint off), rlimit w)]\<rparr>)"

definition ranged_Read :: "nat \<Rightarrow> nat \<Rightarrow> ranged \<Rightarrow> (byte list \<times> error option) \<times> ranged" where
  "ranged_Read c L w =
     (if length (rconns w) \<le> c then (([], Some (Other ''unknown connection'')), w)
      else
        (case rconns w ! c of
           (p, left) \<Rightarrow>
             if left = 0 \<or> length (rblob w) \<le> p then (([], Some EOF), w)
             else
               (let chunk = take (min L left) (drop p (rblob w))
                in ((chunk, None),
                    w\<lparr>rconns := (rconns w)[c := (p + length chunk, left - length chunk)]\<rparr>))))"

definition rangedT :: "(nat, ranged) transport" where
  "rangedT = \<lparr>conn_Read = ranged_Read, conn_Close = (\<lambda>c w. (None, w))\<rparr>"

section \<open>Properties\<close>

text \<open>The equations that evaluate the operations on the concrete transport.\<close>

lemmas flaky_eval =
  Read_def reader_def newHTTPReadSeeker_def flaky_env_def flakyT_def flaky_open_def
  flaky_Read_def flaky_Close_def close_held_def maxRetry_def log_Error_def
  word_sless_alt word_sle_eq Let_def

text \<open>The equations that evaluate \<open>Read\<close> on this transport.\<close>

lemmas ranged_eval =
  Read_def reader_def newHTTPReadSeeker_def rangedT_def ranged_open_def ranged_Read_def
  close_held_def maxRetry_def log_Error_def word_sless_alt word_sle_eq Let_def

subsection \<open>Closed readers\<close>

lemma Close_closed: "closed h \<Longrightarrow> Close T h e = (None, h, e)"
  by (simp add: Close_def)

lemma Read_closed: "closed h \<Longrightarrow> Read T h L e = (([], Some EOF), h, e)"
  by (simp add: Read_def)

lemma Close_open:
  "\<not> closed h \<Longrightarrow>
   Close T h e =
     (case rc h of
        None \<Rightarrow> (None, h\<lparr>closed := True\<rparr>, e)
      | Some r \<Rightarrow> (fst (rc_Close T r e), h\<lparr>closed := True\<rparr>, snd (rc_Close T r e)))"
  by (simp add: Close_def split: option.splits prod.splits)

text \<open>
  C7. \<open>Close\<close> is idempotent. The first call on an open reader sets
  \<open>closed\<close>, closes the held connection (if there is one) and returns what
  that close returned. In the state it leaves, a further \<open>Close\<close> returns
  no error and changes nothing, and \<open>Read\<close> returns zero bytes and
  \<open>io.EOF\<close>, again changing nothing; so the same holds for every later call.
\<close>

theorem Close_idempotent:
  assumes "\<not> closed h"
  shows "case Close T h e of
           (err, h1, e1) \<Rightarrow>
             h1 = h\<lparr>closed := True\<rparr>
             \<and> (case rc h of None \<Rightarrow> err = None \<and> e1 = e
                 | Some r \<Rightarrow> rc_Close T r e = (err, e1))
             \<and> Close T h1 e1 = (None, h1, e1)
             \<and> Read T h1 L e1 = (([], Some EOF), h1, e1)"
proof (cases "rc h")
  case None
  with assms show ?thesis
    by (simp add: Close_open Close_closed Read_closed)
next
  case (Some r)
  with assms show ?thesis
    by (simp add: Close_open Close_closed Read_closed)
qed

theorem Close_idempotent_witness:
  "\<not> closed (\<lparr>size_hrs = - 1, offset = 2, rc = Some (Conn 0), open_hrs = Some flaky_open,
         closed = False, errsWithNoProgress = 0\<rparr> :: (nat, flaky) httpReadSeeker)
   \<and> (case Close flakyT
            \<lparr>size_hrs = - 1, offset = 2, rc = Some (Conn 0), open_hrs = Some flaky_open,
              closed = False, errsWithNoProgress = 0\<rparr>
            \<lparr>world = \<lparr>blob = [1, 2, 3], fail_at = 0, fails_left = 0, conns = [2],
                       close_result = Some (Other ''close failed'')\<rparr>,
              trace = [EvOpen 0, EvRead 0 2]\<rparr> of
        (err, h1, e1) \<Rightarrow>
          err = Some (Other ''close failed'') \<and> closed h1
          \<and> trace e1 = [EvOpen 0, EvRead 0 2, EvClose 0]
          \<and> Close flakyT h1 e1 = (None, h1, e1)
          \<and> Read flakyT h1 4 e1 = (([], Some EOF), h1, e1))"
  using Close_idempotent [where h = "\<lparr>size_hrs = - 1, offset = 2, rc = Some (Conn 0),
         open_hrs = Some flaky_open, closed = False, errsWithNoProgress = 0\<rparr>" and T = flakyT
      and e = "\<lparr>world = \<lparr>blob = [1, 2, 3], fail_at = 0, fails_left = 0, conns = [2],
                       close_result = Some (Other ''close failed'')\<rparr>,
              trace = [EvOpen 0, EvRead 0 2]\<rparr>" and L = 4]
  by (auto simp: flakyT_def flaky_Close_def split: prod.splits)

subsection \<open>Random-access reads\<close>

text \<open>
  C4. \<open>ReadAt\<close> checks, in this order: a closed reader fails with
  \<open>ErrUnavailable\<close> whatever the offset; then a negative offset fails
  with \<open>ErrInvalidArgument\<close>; then an offset at or past a known size gives
  zero bytes and \<open>io.EOF\<close>; then a missing opener fails with
  \<open>ErrNotImplemented\<close>. None of these paths touches the reader or the world.
\<close>

theorem ReadAt_validation_order:
  "(closed h \<longrightarrow>
      ReadAt T h L off e =
        Some (([], Some (Errorf ''httpReadSeeker.ReadAt: closed: %w'' [] ErrUnavailable)), h, e))
   \<and> (\<not> closed h \<and> off <s 0 \<longrightarrow>
      ReadAt T h L off e =
        Some (([], Some (Errorf ''httpReadSeeker.ReadAt: negative offset: %w'' []
                           ErrInvalidArgument)), h, e))
   \<and> (\<not> closed h \<and> \<not> off <s 0 \<and> size_hrs h \<noteq> - 1 \<and> size_hrs h \<le>s off \<longrightarrow>
      ReadAt T h L off e = Some (([], Some EOF), h, e))
   \<and> (\<not> closed h \<and> \<not> off <s 0 \<and> \<not> (size_hrs h \<noteq> - 1 \<and> size_hrs h \<le>s off)
        \<and> open_hrs h = None \<longrightarrow>
      ReadAt T h L off e =
        Some (([], Some (Errorf ''httpReadSeeker.ReadAt: cannot open: %w'' []
                           ErrNotImplemented)), h, e))"
  by (simp add: ReadAt_def)

theorem ReadAt_validation_order_witness:
  "ReadAt flakyT ((newHTTPReadSeeker 100 (Some flaky_open))\<lparr>closed := True\<rparr>) 4 (- 1)
       (flaky_env [1, 2, 3] 0 0)
     = Some (([], Some (Errorf ''httpReadSeeker.ReadAt: closed: %w'' [] ErrUnavailable)),
             (newHTTPReadSeeker 100 (Some flaky_open))\<lparr>closed := True\<rparr>, flaky_env [1, 2, 3] 0 0)
   \<and> ReadAt flakyT (newHTTPReadSeeker 100 (Some flaky_open)) 4 (- 1) (flaky_env [1, 2, 3] 0 0)
     = Some (([], Some (Errorf ''httpReadSeeker.ReadAt: negative offset: %w'' []
                          ErrInvalidArgument)),
             newHTTPReadSeeker 100 (Some flaky_open), flaky_env [1, 2, 3] 0 0)
   \<and> ReadAt flakyT (newHTTPReadSeeker 100 (Some flaky_open)) 4 100 (flaky_env [1, 2, 3] 0 0)
     = Some (([], Some EOF), newHTTPReadSeeker 100 (Some flaky_open), flaky_env [1, 2, 3] 0 0)
   \<and> ReadAt flakyT (newHTTPReadSeeker 100 None) 4 5 (flaky_env [1, 2, 3] 0 0)
     = Some (([], Some (Errorf ''httpReadSeeker.ReadAt: cannot open: %w'' []
                          ErrNotImplemented)),
             newHTTPReadSeeker 100 None, flaky_env [1, 2, 3] 0 0)"
  using
    ReadAt_validation_order [where h = "(newHTTPReadSeeker 100 (Some flaky_open))\<lparr>closed := True\<rparr>"
      and T = flakyT and L = 4 and off = "- 1" and e = "flaky_env [1, 2, 3] 0 0"]
    ReadAt_validation_order [where h = "newHTTPReadSeeker 100 (Some flaky_open)"
      and T = flakyT and L = 4 and off = "- 1" and e = "flaky_env [1, 2, 3] 0 0"]
    ReadAt_validation_order [where h = "newHTTPReadSeeker 100 (Some flaky_open)"
      and T = flakyT and L = 4 and off = 100 and e = "flaky_env [1, 2, 3] 0 0"]
    ReadAt_validation_order [where h = "newHTTPReadSeeker 100 None"
      and T = flakyT and L = 4 and off = 5 and e = "flaky_env [1, 2, 3] 0 0"]
  by (simp add: newHTTPReadSeeker_def word_sless_alt word_sle_eq)

subsection \<open>Sequential reads\<close>

text \<open>
  C6. When the size is known, the offset has reached or passed it and no
  connection is held, \<open>reader\<close> substitutes the synthetic empty stream
  without calling the opener, and \<open>Read\<close> returns zero bytes and
  \<open>io.EOF\<close>; the world and its trace are unchanged (no opener call), and
  the synthetic stream is released again.
\<close>

theorem Read_at_known_end:
  assumes "\<not> closed h" and "rc h = None" and "size_hrs h \<noteq> - 1"
    and "size_hrs h \<le>s offset h"
  shows "reader T h e = (Inr NopCloser, h\<lparr>rc := Some NopCloser\<rparr>, e)
         \<and> Read T h L e = (([], Some EOF), h, e)"
  using assms
  by (simp add: reader_def Read_def close_held_def signed.not_less [symmetric])

theorem Read_at_known_end_witness:
  "Seek flakyT (newHTTPReadSeeker 100 (Some flaky_open)) 50 SeekStart
      (flaky_env (map of_nat [0..<100]) 0 0)
     = ((50, None), (newHTTPReadSeeker 100 (Some flaky_open))\<lparr>offset := 50\<rparr>,
        flaky_env (map of_nat [0..<100]) 0 0)
   \<and> Read flakyT ((newHTTPReadSeeker 100 (Some flaky_open))\<lparr>offset := 50\<rparr>) 10
      (flaky_env (map of_nat [0..<100]) 0 0)
     = (([50, 51, 52, 53, 54, 55, 56, 57, 58, 59], None),
        \<lparr>size_hrs = 100, offset = 60, rc = Some (Conn 0), open_hrs = Some flaky_open,
          closed = False, errsWithNoProgress = 0\<rparr>,
        \<lparr>world = \<lparr>blob = map of_nat [0..<100], fail_at = 0, fails_left = 0, conns = [60],
                   close_result = None\<rparr>,
          trace = [EvOpen 50, EvRead 0 10]\<rparr>)
   \<and> Seek flakyT
      \<lparr>size_hrs = 100, offset = 60, rc = Some (Conn 0), open_hrs = Some flaky_open,
        closed = False, errsWithNoProgress = 0\<rparr> 0 SeekEnd
      \<lparr>world = \<lparr>blob = map of_nat [0..<100], fail_at = 0, fails_left = 0, conns = [60],
                 close_result = None\<rparr>,
        trace = [EvOpen 50, EvRead 0 10]\<rparr>
     = ((100, None),
        \<lparr>size_hrs = 100, offset = 100, rc = None, open_hrs = Some flaky_open,
          closed = False, errsWithNoProgress = 0\<rparr>,
        \<lparr>world = \<lparr>blob = map of_nat [0..<100], fail_at = 0, fails_left = 0, conns = [60],
                   close_result = None\<rparr>,
          trace = [EvOpen 50, EvRead 0 10, EvClose 0]\<rparr>)
   \<and> (100 :: int64) \<le>s 100
   \<and> Read flakyT
      \<lparr>size_hrs = 100, offset = 100, rc = None, open_hrs = Some flaky_open,
        closed = False, errsWithNoProgress = 0\<rparr> 10
      \<lparr>world = \<lparr>blob = map of_nat [0..<100], fail_at = 0, fails_left = 0, conns = [60],
                 close_result = None\<rparr>,
        trace = [EvOpen 50, EvRead 0 10, EvClose 0]\<rparr>
     = (([], Some EOF),
        \<lparr>size_hrs = 100, offset = 100, rc = None, open_hrs = Some flaky_open,
          closed = False, errsWithNoProgress = 0\<rparr>,
        \<lparr>world = \<lparr>blob = map of_nat [0..<100], fail_at = 0, fails_left = 0, conns = [60],
                   close_result = None\<rparr>,
          trace = [EvOpen 50, EvRead 0 10, EvClose 0]\<rparr>)"
proof -
  have a: "Seek flakyT (newHTTPReadSeeker 100 (Some flaky_open)) 50 SeekStart
      (flaky_env (map of_nat [0..<100]) 0 0)
     = ((50, None), (newHTTPReadSeeker 100 (Some flaky_open))\<lparr>offset := 50\<rparr>,
        flaky_env (map of_nat [0..<100]) 0 0)"
    by (simp add: Seek_def seek_abs_def SeekStart_def word_sless_alt newHTTPReadSeeker_def
        close_held_def)
  have b: "Read flakyT ((newHTTPReadSeeker 100 (Some flaky_open))\<lparr>offset := 50\<rparr>) 10
      (flaky_env (map of_nat [0..<100]) 0 0)
     = (([50, 51, 52, 53, 54, 55, 56, 57, 58, 59], None),
        \<lparr>size_hrs = 100, offset = 60, rc = Some (Conn 0), open_hrs = Some flaky_open,
          closed = False, errsWithNoProgress = 0\<rparr>,
        \<lparr>world = \<lparr>blob = map of_nat [0..<100], fail_at = 0, fails_left = 0, conns = [60],
                   close_result = None\<rparr>,
          trace = [EvOpen 50, EvRead 0 10]\<rparr>)"
    by (simp add: flaky_eval drop_map take_map del: upt_rec_numeral) simp
  have c: "Seek flakyT
      \<lparr>size_hrs = 100, offset = 60, rc = Some (Conn 0), open_hrs = Some flaky_open,
        closed = False, errsWithNoProgress = 0\<rparr> 0 SeekEnd
      \<lparr>world = \<lparr>blob = map of_nat [0..<100], fail_at = 0, fails_left = 0, conns = [60],
                 close_result = None\<rparr>,
        trace = [EvOpen 50, EvRead 0 10]\<rparr>
     = ((100, None),
        \<lparr>size_hrs = 100, offset = 100, rc = None, open_hrs = Some flaky_open,
          closed = False, errsWithNoProgress = 0\<rparr>,
        \<lparr>world = \<lparr>blob = map of_nat [0..<100], fail_at = 0, fails_left = 0, conns = [60],
                   close_result = None\<rparr>,
          trace = [EvOpen 50, EvRead 0 10, EvClose 0]\<rparr>)"
    by (simp add: Seek_def seek_abs_def SeekStart_def SeekCurrent_def SeekEnd_def word_sless_alt
        close_held_def flakyT_def flaky_Close_def)
  have d: "(100 :: int64) \<le>s 100" by simp
  have e: "Read flakyT
      \<lparr>size_hrs = 100, offset = 100, rc = None, open_hrs = Some flaky_open,
        closed = False, errsWithNoProgress = 0\<rparr> 10
      \<lparr>world = \<lparr>blob = map of_nat [0..<100], fail_at = 0, fails_left = 0, conns = [60],
                 close_result = None\<rparr>,
        trace = [EvOpen 50, EvRead 0 10, EvClose 0]\<rparr>
     = (([], Some EOF),
        \<lparr>size_hrs = 100, offset = 100, rc = None, open_hrs = Some flaky_open,
          closed = False, errsWithNoProgress = 0\<rparr>,
        \<lparr>world = \<lparr>blob = map of_nat [0..<100], fail_at = 0, fails_left = 0, conns = [60],
                   close_result = None\<rparr>,
          trace = [EvOpen 50, EvRead 0 10, EvClose 0]\<rparr>)"
    by (rule Read_at_known_end [THEN conjunct2]) simp_all
  from a b c d e show ?thesis by - (intro conjI; assumption)
qed

subsection \<open>The cases of \<open>reader\<close> and \<open>Read\<close>\<close>

lemma reader_fields:
  assumes "reader T h e = (r, h1, e1)"
  shows "offset h1 = offset h" "closed h1 = closed h" "size_hrs h1 = size_hrs h"
    "open_hrs h1 = open_hrs h" "errsWithNoProgress h1 = errsWithNoProgress h"
  using assms
  by (auto simp: reader_def Let_def split: option.splits if_splits sum.splits prod.splits)

lemma reader_Inr:
  assumes "reader T h e = (Inr rd, h1, e1)"
  shows "rc h1 = Some rd" "h1 = h\<lparr>rc := Some rd\<rparr>"
  using assms
  by (auto simp: reader_def Let_def split: option.splits if_splits sum.splits prod.splits)

lemma reader_Inl:
  assumes "reader T h e = (Inl err, h1, e1)"
  shows "h1 = h" "rc h = None" "err \<noteq> EOF" "err \<noteq> ErrUnexpectedEOF"
  using assms
  by (auto simp: reader_def Let_def split: option.splits if_splits sum.splits prod.splits)


lemma close_held_upd [simp]:
  "close_held msg T (h\<lparr>offset := x\<rparr>) e = close_held msg T h e"
  "close_held msg T (h\<lparr>errsWithNoProgress := y\<rparr>) e = close_held msg T h e"
  "close_held msg T (h\<lparr>rc := None\<rparr>) e = e"
  by (simp_all add: close_held_def)

lemma Read_reader_fail:
  assumes "\<not> closed h" and "reader T h e = (Inl x, h1, e1)"
  shows "Read T h L e = (([], Some x), h, e1)"
  using assms reader_Inl(1) [OF assms(2)] by (simp add: Read_def)

lemma Read_plain:
  assumes "\<not> closed h" and "reader T h e = (Inr rd, h1, e1)"
    and "rc_Read T rd L e1 = ((bs, err), e2)"
    and "err \<noteq> Some ErrUnexpectedEOF" and "err \<noteq> Some EOF"
  shows "Read T h L e =
           ((bs, err),
            h1\<lparr>offset := offset h1 + of_nat (length bs),
               errsWithNoProgress :=
                 (if 0 < length bs \<or> err = None then 0 else errsWithNoProgress h1)\<rparr>,
            e2)"
  using assms by (simp add: Read_def Let_def)

lemma Read_EOF:
  assumes "\<not> closed h" and "reader T h e = (Inr rd, h1, e1)"
    and "rc_Read T rd L e1 = ((bs, Some EOF), e2)"
  shows "Read T h L e =
           ((bs, Some EOF),
            h1\<lparr>offset := offset h1 + of_nat (length bs),
               errsWithNoProgress := (if 0 < length bs then 0 else errsWithNoProgress h1),
               rc := None\<rparr>,
            close_held ''httpReadSeeker: failed to close ReadCloser after io.EOF'' T h1 e2)"
  using assms by (simp add: Read_def Let_def)

lemma Read_giveup:
  assumes "\<not> closed h" and "reader T h e = (Inr rd, h1, e1)"
    and "rc_Read T rd L e1 = (([], Some ErrUnexpectedEOF), e2)"
    and "maxRetry <s errsWithNoProgress h1 + 1"
  shows "Read T h L e =
           (([], Some ErrUnexpectedEOF),
            h1\<lparr>errsWithNoProgress := errsWithNoProgress h1 + 1\<rparr>, e2)"
  using assms by (simp add: Read_def Let_def)

lemma Read_retry:
  assumes "\<not> closed h" and "reader T h e = (Inr rd, h1, e1)"
    and "rc_Read T rd L e1 = ((bs, Some ErrUnexpectedEOF), e2)"
    and "bs = [] \<longrightarrow> \<not> maxRetry <s errsWithNoProgress h1 + 1"
  shows "Read T h L e =
           (case reader T
                   (h1\<lparr>offset := offset h1 + of_nat (length bs),
                      errsWithNoProgress :=
                        (if bs = [] then errsWithNoProgress h1 + 1 else 0),
                      rc := None\<rparr>)
                   (close_held ''httpReadSeeker: failed to close ReadCloser'' T h1 e2) of
              (Inr rd2, h6, e4) \<Rightarrow> ((bs, None), h6, e4)
            | (Inl err2, h6, e4) \<Rightarrow> ((bs, Some ErrUnexpectedEOF), h6, e4))"
  using assms
  by (cases "bs = []") (simp_all add: Read_def Let_def split: prod.splits sum.splits)

text \<open>The cases of an open reader's \<open>Read\<close>, for case analysis.\<close>

lemma Read_cases [consumes 1, case_names fail plain eof giveup retry]:
  assumes "\<not> closed h"
  obtains
    (fail) x h1 e1 where "reader T h e = (Inl x, h1, e1)"
  | (plain) rd h1 e1 bs err e2 where "reader T h e = (Inr rd, h1, e1)"
      "rc_Read T rd L e1 = ((bs, err), e2)" "err \<noteq> Some ErrUnexpectedEOF" "err \<noteq> Some EOF"
  | (eof) rd h1 e1 bs e2 where "reader T h e = (Inr rd, h1, e1)"
      "rc_Read T rd L e1 = ((bs, Some EOF), e2)"
  | (giveup) rd h1 e1 e2 where "reader T h e = (Inr rd, h1, e1)"
      "rc_Read T rd L e1 = (([], Some ErrUnexpectedEOF), e2)"
      "maxRetry <s errsWithNoProgress h1 + 1"
  | (retry) rd h1 e1 bs e2 where "reader T h e = (Inr rd, h1, e1)"
      "rc_Read T rd L e1 = ((bs, Some ErrUnexpectedEOF), e2)"
      "bs = [] \<longrightarrow> \<not> maxRetry <s errsWithNoProgress h1 + 1"
proof -
  obtain r h1 e1 where rd: "reader T h e = (r, h1, e1)"
    by (cases "reader T h e") auto
  show thesis
  proof (cases r)
    case (Inl x)
    with rd show thesis by (auto intro: fail)
  next
    case (Inr c)
    obtain bs err e2 where rr: "rc_Read T c L e1 = ((bs, err), e2)"
      by (cases "rc_Read T c L e1") auto
    from rd Inr rr show thesis
      by (cases "err = Some ErrUnexpectedEOF"; cases "err = Some EOF";
          cases "bs = [] \<and> maxRetry <s errsWithNoProgress h1 + 1")
         (auto intro: plain eof giveup retry)
  qed
qed

lemma Read_offset:
  assumes "Read T h L e = ((bs, err), h', e')"
  shows "offset h' = offset h + of_nat (length bs)"
proof (cases "closed h")
  case True
  with assms show ?thesis by (simp add: Read_def)
next
  case False
  then show ?thesis
  proof (cases rule: Read_cases [where T = T and h = h and e = e and L = L])
    case (fail x h1 e1)
    with assms False show ?thesis by (simp add: Read_reader_fail)
  next
    case (plain rd h1 e1 bs err e2)
    with assms False show ?thesis by (auto simp: Read_plain dest: reader_fields(1))
  next
    case (eof rd h1 e1 bs e2)
    with assms False show ?thesis by (auto simp: Read_EOF dest: reader_fields(1))
  next
    case (giveup rd h1 e1 e2)
    with assms False show ?thesis by (auto simp: Read_giveup dest: reader_fields(1))
  next
    case (retry rd h1 e1 bs e2)
    with assms False show ?thesis
      by (auto simp: Read_retry split: prod.splits sum.splits dest!: reader_fields(1))
  qed
qed

subsection \<open>Offsets and the end of a stream\<close>

lemma close_held_released:
  "rc h = Some r \<Longrightarrow> released msg T r e (close_held msg T h e)"
  by (cases r)
     (auto simp: released_def close_held_def log_Error_def split: prod.splits option.splits)

lemma close_held_None: "rc h = None \<Longrightarrow> close_held msg T h e = e"
  by (simp add: close_held_def)

lemma Reads_offset:
  "Reads T h Ls e = (rs, h', e') \<Longrightarrow>
   offset h' = offset h + of_nat (length (concat (map fst rs)))"
proof (induction Ls arbitrary: h e rs h' e')
  case Nil
  then show ?case by simp
next
  case (Cons L Ls)
  obtain bs err h1 e1 where r: "Read T h L e = ((bs, err), h1, e1)"
    by (cases "Read T h L e") auto
  obtain rs1 h2 e2 where rs: "Reads T h1 Ls e1 = (rs1, h2, e2)"
    by (cases "Reads T h1 Ls e1") auto
  from Cons.prems r rs have "rs = (bs, err) # rs1" "h' = h2" by auto
  with Cons.IH [OF rs] Read_offset [OF r] show ?case by simp
qed

lemma Read_EOF_releases:
  assumes "\<not> closed h" and "Read T h L e = ((bs, Some EOF), h', e')"
  shows "rc h' = None
         \<and> (\<exists>rd h1 e1 e2. reader T h e = (Inr rd, h1, e1) \<and> rc h1 = Some rd
              \<and> rc_Read T rd L e1 = ((bs, Some EOF), e2)
              \<and> released ''httpReadSeeker: failed to close ReadCloser after io.EOF'' T rd e2 e')"
  using assms(1)
proof (cases rule: Read_cases [where T = T and h = h and e = e and L = L])
  case (fail x h1 e1)
  with assms reader_Inl(3) [OF fail] show ?thesis by (simp add: Read_reader_fail)
next
  case (plain rd h1 e1 bs err e2)
  with assms show ?thesis by (simp add: Read_plain)
next
  case (eof rd h1 e1 bs1 e2)
  with assms reader_Inr(1) [OF eof(1)] show ?thesis
    by (auto simp: Read_EOF intro: close_held_released)
next
  case (giveup rd h1 e1 e2)
  with assms show ?thesis by (simp add: Read_giveup)
next
  case (retry rd h1 e1 bs e2)
  with assms show ?thesis by (auto simp: Read_retry split: prod.splits sum.splits)
qed

lemma Read_EOF_iff:
  assumes "\<not> closed h" and "Read T h L e = ((bs, err), h', e')"
  shows "err = Some EOF \<longleftrightarrow> underlying_Read T h L e = Some (bs, Some EOF)"
  using assms(1)
proof (cases rule: Read_cases [where T = T and h = h and e = e and L = L])
  case (fail x h1 e1)
  with assms reader_Inl(3) [OF fail] show ?thesis
    by (auto simp: Read_reader_fail underlying_Read_def)
next
  case (plain rd h1 e1 bs1 err1 e2)
  with assms show ?thesis by (auto simp: Read_plain underlying_Read_def)
next
  case (eof rd h1 e1 bs1 e2)
  with assms show ?thesis by (auto simp: Read_EOF underlying_Read_def)
next
  case (giveup rd h1 e1 e2)
  with assms show ?thesis by (auto simp: Read_giveup underlying_Read_def)
next
  case (retry rd h1 e1 bs1 e2)
  with assms show ?thesis
    by (auto simp: Read_retry underlying_Read_def split: prod.splits sum.splits)
qed

text \<open>
  C2. Every \<open>Read\<close> advances \<open>offset\<close> by the number of bytes it returns
  (in \<open>int64\<close> arithmetic), so any sequence of calls advances it by the
  total returned. On an open reader, \<open>Read\<close> returns \<open>io.EOF\<close> exactly when
  the connection read reports \<open>io.EOF\<close>; the connection that was read has
  then been closed and \<open>rc\<close> is none.
\<close>

theorem Read_advances_offset:
  "(case Reads T h Ls e of
      (rs, h', e') \<Rightarrow> offset h' = offset h + of_nat (length (concat (map fst rs))))
   \<and> (case Read T h L e of
        ((bs, err), h', e') \<Rightarrow>
          offset h' = offset h + of_nat (length bs)
          \<and> (\<not> closed h \<longrightarrow>
               (err = Some EOF \<longleftrightarrow> underlying_Read T h L e = Some (bs, Some EOF))
               \<and> (err = Some EOF \<longrightarrow>
                    rc h' = None
                    \<and> (\<exists>rd h1 e1 e2. reader T h e = (Inr rd, h1, e1) \<and> rc h1 = Some rd
                         \<and> rc_Read T rd L e1 = ((bs, Some EOF), e2)
                         \<and> released ''httpReadSeeker: failed to close ReadCloser after io.EOF''
                              T rd e2 e'))))"
proof -
  have "case Reads T h Ls e of
      (rs, h', e') \<Rightarrow> offset h' = offset h + of_nat (length (concat (map fst rs)))"
    using Reads_offset [of T h Ls e] by (cases "Reads T h Ls e") auto
  moreover have "case Read T h L e of
        ((bs, err), h', e') \<Rightarrow>
          offset h' = offset h + of_nat (length bs)
          \<and> (\<not> closed h \<longrightarrow>
               (err = Some EOF \<longleftrightarrow> underlying_Read T h L e = Some (bs, Some EOF))
               \<and> (err = Some EOF \<longrightarrow>
                    rc h' = None
                    \<and> (\<exists>rd h1 e1 e2. reader T h e = (Inr rd, h1, e1) \<and> rc h1 = Some rd
                         \<and> rc_Read T rd L e1 = ((bs, Some EOF), e2)
                         \<and> released ''httpReadSeeker: failed to close ReadCloser after io.EOF''
                              T rd e2 e')))"
  proof -
    obtain bs err h' e' where r: "Read T h L e = ((bs, err), h', e')"
      by (cases "Read T h L e") auto
    from Read_offset [OF r] Read_EOF_iff [OF _ r] Read_EOF_releases [of h T L e bs h' e'] r
    show ?thesis by auto
  qed
  ultimately show ?thesis by simp
qed

theorem Read_advances_offset_witness:
  "(case Reads flakyT (newHTTPReadSeeker (- 1) (Some flaky_open)) [2, 2, 2] (flaky_env [1, 2, 3] 0 0) of
      (rs, h', e') \<Rightarrow> map fst rs = [[1, 2], [3], []] \<and> offset h' = 3)
   \<and> \<not> closed (\<lparr>size_hrs = - 1, offset = 3, rc = Some (Conn 0), open_hrs = Some flaky_open,
          closed = False, errsWithNoProgress = 0\<rparr> :: (nat, flaky) httpReadSeeker)
   \<and> underlying_Read flakyT
            \<lparr>size_hrs = - 1, offset = 3, rc = Some (Conn 0), open_hrs = Some flaky_open,
              closed = False, errsWithNoProgress = 0\<rparr> 2
            \<lparr>world = \<lparr>blob = [1, 2, 3], fail_at = 0, fails_left = 0, conns = [3],
                       close_result = None\<rparr>,
              trace = [EvOpen 0, EvRead 0 2, EvRead 0 2]\<rparr> = Some ([], Some EOF)
   \<and> (case Read flakyT
            \<lparr>size_hrs = - 1, offset = 3, rc = Some (Conn 0), open_hrs = Some flaky_open,
              closed = False, errsWithNoProgress = 0\<rparr> 2
            \<lparr>world = \<lparr>blob = [1, 2, 3], fail_at = 0, fails_left = 0, conns = [3],
                       close_result = None\<rparr>,
              trace = [EvOpen 0, EvRead 0 2, EvRead 0 2]\<rparr> of
        ((bs, err), h', e') \<Rightarrow>
          bs = [] \<and> err = Some EOF \<and> offset h' = 3 \<and> rc h' = None
          \<and> trace e' = [EvOpen 0, EvRead 0 2, EvRead 0 2, EvRead 0 2, EvClose 0])"
  using Read_advances_offset [where T = flakyT
      and h = "\<lparr>size_hrs = - 1, offset = 3, rc = Some (Conn 0), open_hrs = Some flaky_open,
              closed = False, errsWithNoProgress = 0\<rparr>"
      and L = 2 and Ls = "[]"
      and e = "\<lparr>world = \<lparr>blob = [1, 2, 3], fail_at = 0, fails_left = 0, conns = [3],
                       close_result = None\<rparr>,
              trace = [EvOpen 0, EvRead 0 2, EvRead 0 2]\<rparr>"]
  by (simp add: flaky_eval underlying_Read_def)

subsection \<open>The stall counter\<close>

lemma Read_result:
  assumes "Read T h L e = ((bs, err), h', e')"
  shows "closed h' = closed h"
    and "bs \<noteq> [] \<Longrightarrow> errsWithNoProgress h' = 0"
    and "err = None \<Longrightarrow>
           \<exists>uerr. underlying_Read T h L e = Some (bs, uerr)
             \<and> (uerr = None \<or> uerr = Some ErrUnexpectedEOF)
             \<and> (uerr = None \<longrightarrow> errsWithNoProgress h' = 0)
             \<and> (uerr = Some ErrUnexpectedEOF \<and> bs = [] \<longrightarrow>
                  errsWithNoProgress h' = errsWithNoProgress h + 1)"
proof -
  have "closed h' = closed h
    \<and> (bs \<noteq> [] \<longrightarrow> errsWithNoProgress h' = 0)
    \<and> (err = None \<longrightarrow>
           (\<exists>uerr. underlying_Read T h L e = Some (bs, uerr)
             \<and> (uerr = None \<or> uerr = Some ErrUnexpectedEOF)
             \<and> (uerr = None \<longrightarrow> errsWithNoProgress h' = 0)
             \<and> (uerr = Some ErrUnexpectedEOF \<and> bs = [] \<longrightarrow>
                  errsWithNoProgress h' = errsWithNoProgress h + 1)))"
  proof (cases "closed h")
    case True
    with assms show ?thesis by (auto simp: Read_def)
  next
    case False
    then show ?thesis
    proof (cases rule: Read_cases [where T = T and h = h and e = e and L = L])
      case (fail x h1 e1)
      with assms False show ?thesis by (auto simp: Read_reader_fail)
    next
      case (plain rd h1 e1 bs1 err1 e2)
      with assms False reader_fields [OF plain(1)] show ?thesis
        by (auto simp: Read_plain underlying_Read_def)
    next
      case (eof rd h1 e1 bs1 e2)
      with assms False reader_fields [OF eof(1)] show ?thesis
        by (auto simp: Read_EOF)
    next
      case (giveup rd h1 e1 e2)
      with assms False reader_fields [OF giveup(1)] show ?thesis
        by (auto simp: Read_giveup)
    next
      case (retry rd h1 e1 bs1 e2)
      obtain r2 h6 e4 where r2: "reader T
                   (h1\<lparr>offset := offset h1 + of_nat (length bs1),
                      errsWithNoProgress :=
                        (if bs1 = [] then errsWithNoProgress h1 + 1 else 0),
                      rc := None\<rparr>)
                   (close_held ''httpReadSeeker: failed to close ReadCloser'' T h1 e2)
                 = (r2, h6, e4)"
        using prod_cases3 by blast
      from assms False retry r2 reader_fields [OF retry(1)] reader_fields [OF r2]
      show ?thesis
        by (cases r2) (auto simp: Read_retry underlying_Read_def)
    qed
  qed
  then show "closed h' = closed h"
    and "bs \<noteq> [] \<Longrightarrow> errsWithNoProgress h' = 0"
    and "err = None \<Longrightarrow>
           \<exists>uerr. underlying_Read T h L e = Some (bs, uerr)
             \<and> (uerr = None \<or> uerr = Some ErrUnexpectedEOF)
             \<and> (uerr = None \<longrightarrow> errsWithNoProgress h' = 0)
             \<and> (uerr = Some ErrUnexpectedEOF \<and> bs = [] \<longrightarrow>
                  errsWithNoProgress h' = errsWithNoProgress h + 1)"
    by blast+
qed

text \<open>
  C9 (amended). A \<open>Read\<close> that returns at least one byte leaves
  \<open>errsWithNoProgress\<close> at zero. A \<open>Read\<close> that returns no error has read
  from a connection, and that read reported either no error or
  \<open>io.ErrUnexpectedEOF\<close> (then suppressed after a successful reconnect). In
  the first case the counter is zero; in the second, when no byte was read,
  the counter is one more than before the call.
\<close>

theorem Read_stall_counter:
  "case Read T h L e of
     ((bs, err), h', e') \<Rightarrow>
       (bs \<noteq> [] \<longrightarrow> errsWithNoProgress h' = 0)
       \<and> (err = None \<longrightarrow>
            (\<exists>uerr. underlying_Read T h L e = Some (bs, uerr)
               \<and> (uerr = None \<or> uerr = Some ErrUnexpectedEOF)
               \<and> (uerr = None \<longrightarrow> errsWithNoProgress h' = 0)
               \<and> (uerr = Some ErrUnexpectedEOF \<and> bs = [] \<longrightarrow>
                    errsWithNoProgress h' = errsWithNoProgress h + 1)))"
proof -
  obtain bs err h' e' where r: "Read T h L e = ((bs, err), h', e')"
    by (cases "Read T h L e") auto
  from Read_result(2,3) [OF r] r show ?thesis by auto
qed

text \<open>
  The claim as stated fails: the connection truncates with no progress, the
  reconnect succeeds, \<open>Read\<close> returns zero bytes and no error, and the
  counter is 1.
\<close>

theorem Read_stall_counter_counterexample:
  "fst (Read flakyT (newHTTPReadSeeker (- 1) (Some flaky_open)) 4 (flaky_env [1, 2, 3] 0 1))
     = ([], None)
   \<and> errsWithNoProgress
         (fst (snd (Read flakyT (newHTTPReadSeeker (- 1) (Some flaky_open)) 4
                      (flaky_env [1, 2, 3] 0 1)))) = 1"
  by (simp add: flaky_eval)

theorem Read_stall_counter_witness:
  "(case Read flakyT (newHTTPReadSeeker (- 1) (Some flaky_open)) 4 (flaky_env [1, 2, 3] 0 1) of
     ((bs, err), h', e') \<Rightarrow>
       bs = [] \<and> err = None
       \<and> underlying_Read flakyT (newHTTPReadSeeker (- 1) (Some flaky_open)) 4
            (flaky_env [1, 2, 3] 0 1) = Some ([], Some ErrUnexpectedEOF)
       \<and> errsWithNoProgress h' = 1)
   \<and> (case Read flakyT
            \<lparr>size_hrs = - 1, offset = 0, rc = Some (Conn 1), open_hrs = Some flaky_open,
              closed = False, errsWithNoProgress = 1\<rparr> 4
            \<lparr>world = \<lparr>blob = [1, 2, 3], fail_at = 0, fails_left = 0, conns = [0, 0],
                       close_result = None\<rparr>,
              trace = [EvOpen 0, EvRead 0 4, EvClose 0, EvOpen 0]\<rparr> of
        ((bs, err), h', e') \<Rightarrow>
          bs = [1, 2, 3] \<and> err = None
          \<and> underlying_Read flakyT
               \<lparr>size_hrs = - 1, offset = 0, rc = Some (Conn 1), open_hrs = Some flaky_open,
                 closed = False, errsWithNoProgress = 1\<rparr> 4
               \<lparr>world = \<lparr>blob = [1, 2, 3], fail_at = 0, fails_left = 0, conns = [0, 0],
                          close_result = None\<rparr>,
                 trace = [EvOpen 0, EvRead 0 4, EvClose 0, EvOpen 0]\<rparr> = Some ([1, 2, 3], None)
          \<and> errsWithNoProgress h' = 0)"
  using Read_stall_counter [where T = flakyT and h = "newHTTPReadSeeker (- 1) (Some flaky_open)"
      and L = 4 and e = "flaky_env [1, 2, 3] 0 1"]
    Read_stall_counter [where T = flakyT
      and h = "\<lparr>size_hrs = - 1, offset = 0, rc = Some (Conn 1), open_hrs = Some flaky_open,
              closed = False, errsWithNoProgress = 1\<rparr>"
      and L = 4
      and e = "\<lparr>world = \<lparr>blob = [1, 2, 3], fail_at = 0, fails_left = 0, conns = [0, 0],
                       close_result = None\<rparr>,
              trace = [EvOpen 0, EvRead 0 4, EvClose 0, EvOpen 0]\<rparr>"]
  by (simp add: flaky_eval underlying_Read_def)

subsection \<open>Reading on after the end of a stream\<close>

lemma Read_fresh_connection:
  assumes "\<not> closed h" and "rc h = None" and "size_hrs h = - 1 \<or> offset h <s size_hrs h"
    and "open_hrs h = Some opn" and "opn (offset h) (world e) = (Inr c, w')"
  shows "reader T h e =
           (Inr (Conn c), h\<lparr>rc := Some (Conn c)\<rparr>,
            e\<lparr>world := w', trace := trace e @ [EvOpen (offset h)]\<rparr>)"
    and "Read T h L e =
           Read T (h\<lparr>rc := Some (Conn c)\<rparr>) L
             (e\<lparr>world := w', trace := trace e @ [EvOpen (offset h)]\<rparr>)"
proof -
  show r: "reader T h e =
           (Inr (Conn c), h\<lparr>rc := Some (Conn c)\<rparr>,
            e\<lparr>world := w', trace := trace e @ [EvOpen (offset h)]\<rparr>)"
    using assms by (auto simp: reader_def close_held_def)
  have "reader T (h\<lparr>rc := Some (Conn c)\<rparr>)
          (e\<lparr>world := w', trace := trace e @ [EvOpen (offset h)]\<rparr>)
        = (Inr (Conn c), h\<lparr>rc := Some (Conn c)\<rparr>,
           e\<lparr>world := w', trace := trace e @ [EvOpen (offset h)]\<rparr>)"
    by (simp add: reader_def)
  with r assms(1) show "Read T h L e =
           Read T (h\<lparr>rc := Some (Conn c)\<rparr>) L
             (e\<lparr>world := w', trace := trace e @ [EvOpen (offset h)]\<rparr>)"
    by (simp add: Read_def)
qed

lemma Read_open_fails:
  assumes "\<not> closed h" and "rc h = None" and "size_hrs h = - 1 \<or> offset h <s size_hrs h"
  shows "open_hrs h = None \<Longrightarrow>
           Read T h L e = (([], Some (Errorf ''cannot open: %w'' [] ErrNotImplemented)), h, e)"
    and "open_hrs h = Some opn \<Longrightarrow> opn (offset h) (world e) = (Inl oerr, w') \<Longrightarrow>
           Read T h L e =
             (([], Some (Errorf ''httpReadSeeker: failed open: %w'' [] oerr)), h,
              e\<lparr>world := w', trace := trace e @ [EvOpen (offset h)]\<rparr>)"
  using assms by (auto simp: Read_def reader_def)

lemma Read_held_bytes:
  assumes "\<not> closed h" and "rc h = Some (Conn c)"
  shows "fst (fst (Read T h L e)) = fst (fst (conn_Read T c L (world e)))"
    and "snd (fst (conn_Read T c L (world e))) \<noteq> Some ErrUnexpectedEOF \<Longrightarrow>
           snd (fst (Read T h L e)) = snd (fst (conn_Read T c L (world e)))"
  using assms
  by (auto simp: Read_def reader_def Let_def split: prod.splits sum.splits)

text \<open>
  C10. \<open>io.EOF\<close> is not terminal. After an open reader's \<open>Read\<close> has
  returned \<open>io.EOF\<close>, the reader is still open and holds no connection.
  If the size is unknown or the offset is below it, the next \<open>Read\<close>
  calls the opener at the current offset: without an opener it fails with
  \<open>ErrNotImplemented\<close>, a failing opener's error is returned wrapped, and
  otherwise the call is a \<open>Read\<close> on the fresh connection, returning the
  bytes that connection's read returns and (unless that is a truncation) its
  error.
\<close>

theorem Read_after_EOF_reopens:
  assumes "\<not> closed h" and "Read T h L e = ((bs, Some EOF), h1, e1)"
    and "size_hrs h1 = - 1 \<or> offset h1 <s size_hrs h1"
  shows "\<not> closed h1 \<and> rc h1 = None
         \<and> (case open_hrs h1 of
              None \<Rightarrow>
                Read T h1 L' e1 =
                  (([], Some (Errorf ''cannot open: %w'' [] ErrNotImplemented)), h1, e1)
            | Some opn \<Rightarrow>
                (case opn (offset h1) (world e1) of
                   (Inl oerr, w') \<Rightarrow>
                     Read T h1 L' e1 =
                       (([], Some (Errorf ''httpReadSeeker: failed open: %w'' [] oerr)), h1,
                        e1\<lparr>world := w', trace := trace e1 @ [EvOpen (offset h1)]\<rparr>)
                 | (Inr c, w') \<Rightarrow>
                     Read T h1 L' e1 =
                       Read T (h1\<lparr>rc := Some (Conn c)\<rparr>) L'
                         (e1\<lparr>world := w', trace := trace e1 @ [EvOpen (offset h1)]\<rparr>)
                     \<and> fst (fst (Read T h1 L' e1)) = fst (fst (conn_Read T c L' w'))
                     \<and> (snd (fst (conn_Read T c L' w')) \<noteq> Some ErrUnexpectedEOF \<longrightarrow>
                          snd (fst (Read T h1 L' e1)) = snd (fst (conn_Read T c L' w')))))"
proof -
  from Read_result(1) [OF assms(2)] assms(1) have c: "\<not> closed h1" by simp
  from Read_EOF_releases [OF assms(1,2)] have n: "rc h1 = None" by simp
  show ?thesis
  proof (cases "open_hrs h1")
    case None
    with c n Read_open_fails(1) [OF c n assms(3)] show ?thesis by simp
  next
    case (Some opn)
    obtain r w' where o: "opn (offset h1) (world e1) = (r, w')"
      by (cases "opn (offset h1) (world e1)") auto
    show ?thesis
    proof (cases r)
      case (Inl oerr)
      with c n Some o Read_open_fails(2) [OF c n assms(3) Some] show ?thesis by simp
    next
      case (Inr cn)
      have c': "\<not> closed (h1\<lparr>rc := Some (Conn cn)\<rparr>)" using c by simp
      have o': "opn (offset h1) (world e1) = (Inr cn, w')" using o Inr by simp
      have "rc (h1\<lparr>rc := Some (Conn cn)\<rparr>) = Some (Conn cn)" by simp
      from Read_fresh_connection(2) [OF c n assms(3) Some o', where T = T and L = L']
        Read_held_bytes [OF c' this, where T = T and L = L'
          and e = "e1\<lparr>world := w', trace := trace e1 @ [EvOpen (offset h1)]\<rparr>"]
      show ?thesis using c n Some o' by simp
    qed
  qed
qed

theorem Read_after_EOF_reopens_witness:
  "\<not> closed (\<lparr>size_hrs = 3, offset = 2, rc = Some (Conn 0), open_hrs = Some ranged_open,
         closed = False, errsWithNoProgress = 0\<rparr> :: (nat, ranged) httpReadSeeker)
   \<and> Reads rangedT (newHTTPReadSeeker 3 (Some ranged_open)) [2]
        \<lparr>world = \<lparr>rblob = [1, 2, 3], rlimit = 2, rconns = []\<rparr>, trace = []\<rparr>
      = ([([1, 2], None)],
         \<lparr>size_hrs = 3, offset = 2, rc = Some (Conn 0), open_hrs = Some ranged_open,
           closed = False, errsWithNoProgress = 0\<rparr>,
         \<lparr>world = \<lparr>rblob = [1, 2, 3], rlimit = 2, rconns = [(2, 0)]\<rparr>,
           trace = [EvOpen 0, EvRead 0 2]\<rparr>)
   \<and> Read rangedT
        \<lparr>size_hrs = 3, offset = 2, rc = Some (Conn 0), open_hrs = Some ranged_open,
          closed = False, errsWithNoProgress = 0\<rparr> 2
        \<lparr>world = \<lparr>rblob = [1, 2, 3], rlimit = 2, rconns = [(2, 0)]\<rparr>,
          trace = [EvOpen 0, EvRead 0 2]\<rparr>
      = (([], Some EOF),
         \<lparr>size_hrs = 3, offset = 2, rc = None, open_hrs = Some ranged_open,
           closed = False, errsWithNoProgress = 0\<rparr>,
         \<lparr>world = \<lparr>rblob = [1, 2, 3], rlimit = 2, rconns = [(2, 0)]\<rparr>,
           trace = [EvOpen 0, EvRead 0 2, EvRead 0 2, EvClose 0]\<rparr>)
   \<and> (2 :: int64) <s 3
   \<and> Read rangedT
        \<lparr>size_hrs = 3, offset = 2, rc = None, open_hrs = Some ranged_open,
          closed = False, errsWithNoProgress = 0\<rparr> 2
        \<lparr>world = \<lparr>rblob = [1, 2, 3], rlimit = 2, rconns = [(2, 0)]\<rparr>,
          trace = [EvOpen 0, EvRead 0 2, EvRead 0 2, EvClose 0]\<rparr>
      = Read rangedT
        \<lparr>size_hrs = 3, offset = 2, rc = Some (Conn 1), open_hrs = Some ranged_open,
          closed = False, errsWithNoProgress = 0\<rparr> 2
        \<lparr>world = \<lparr>rblob = [1, 2, 3], rlimit = 2, rconns = [(2, 0), (2, 2)]\<rparr>,
          trace = [EvOpen 0, EvRead 0 2, EvRead 0 2, EvClose 0, EvOpen 2]\<rparr>
   \<and> fst (Read rangedT
        \<lparr>size_hrs = 3, offset = 2, rc = None, open_hrs = Some ranged_open,
          closed = False, errsWithNoProgress = 0\<rparr> 2
        \<lparr>world = \<lparr>rblob = [1, 2, 3], rlimit = 2, rconns = [(2, 0)]\<rparr>,
          trace = [EvOpen 0, EvRead 0 2, EvRead 0 2, EvClose 0]\<rparr>) = ([3], None)"
proof -
  have r: "Read rangedT
        \<lparr>size_hrs = 3, offset = 2, rc = Some (Conn 0), open_hrs = Some ranged_open,
          closed = False, errsWithNoProgress = 0\<rparr> 2
        \<lparr>world = \<lparr>rblob = [1, 2, 3], rlimit = 2, rconns = [(2, 0)]\<rparr>,
          trace = [EvOpen 0, EvRead 0 2]\<rparr>
      = (([], Some EOF),
         \<lparr>size_hrs = 3, offset = 2, rc = None, open_hrs = Some ranged_open,
           closed = False, errsWithNoProgress = 0\<rparr>,
         \<lparr>world = \<lparr>rblob = [1, 2, 3], rlimit = 2, rconns = [(2, 0)]\<rparr>,
           trace = [EvOpen 0, EvRead 0 2, EvRead 0 2, EvClose 0]\<rparr>)"
    by (simp add: ranged_eval)
  have s: "Reads rangedT (newHTTPReadSeeker 3 (Some ranged_open)) [2]
        \<lparr>world = \<lparr>rblob = [1, 2, 3], rlimit = 2, rconns = []\<rparr>, trace = []\<rparr>
      = ([([1, 2], None)],
         \<lparr>size_hrs = 3, offset = 2, rc = Some (Conn 0), open_hrs = Some ranged_open,
           closed = False, errsWithNoProgress = 0\<rparr>,
         \<lparr>world = \<lparr>rblob = [1, 2, 3], rlimit = 2, rconns = [(2, 0)]\<rparr>,
           trace = [EvOpen 0, EvRead 0 2]\<rparr>)"
    by (simp add: ranged_eval)
  let ?A = "Read rangedT
        \<lparr>size_hrs = 3, offset = 2, rc = None, open_hrs = Some ranged_open,
          closed = False, errsWithNoProgress = 0\<rparr> 2
        \<lparr>world = \<lparr>rblob = [1, 2, 3], rlimit = 2, rconns = [(2, 0)]\<rparr>,
          trace = [EvOpen 0, EvRead 0 2, EvRead 0 2, EvClose 0]\<rparr>"
  let ?B = "Read rangedT
        \<lparr>size_hrs = 3, offset = 2, rc = Some (Conn 1), open_hrs = Some ranged_open,
          closed = False, errsWithNoProgress = 0\<rparr> 2
        \<lparr>world = \<lparr>rblob = [1, 2, 3], rlimit = 2, rconns = [(2, 0), (2, 2)]\<rparr>,
          trace = [EvOpen 0, EvRead 0 2, EvRead 0 2, EvClose 0, EvOpen 2]\<rparr>"
  from Read_after_EOF_reopens [OF _ r, where L' = 2]
  have t: "?A = ?B \<and> fst (fst ?A) = [3] \<and> snd (fst ?A) = None"
    by (auto simp: ranged_open_def rangedT_def ranged_Read_def word_sless_alt Let_def)
  then have t1: "fst (fst ?A) = [3]" and t2: "snd (fst ?A) = None" and t3: "?A = ?B"
    by blast+
  have u: "fst ?A = ([3], None)"
    by (rule prod_eqI) (simp_all only: t1 t2 fst_conv snd_conv)
  have v: "(2 :: int64) <s 3" by (simp add: word_sless_alt)
  have w: "\<not> closed (\<lparr>size_hrs = 3, offset = 2, rc = Some (Conn 0),
         open_hrs = Some ranged_open, closed = False, errsWithNoProgress = 0\<rparr>
       :: (nat, ranged) httpReadSeeker)"
    by simp
  from w s r v t3 u show ?thesis by - (intro conjI; assumption)
qed

subsection \<open>Seeking\<close>

lemma Seek_closed:
  "closed h \<Longrightarrow>
   Seek T h off whence e =
     ((0, Some (Errorf ''Fetcher.Seek: closed: %w'' [] ErrUnavailable)), h, e)"
  by (simp add: Seek_def)

lemma Seek_moves:
  assumes "\<not> closed h" and "seek_abs h off whence = Inr a" and "\<not> a <s 0"
    and "a \<noteq> offset h"
  shows "Seek T h off whence e =
           ((a, None), h\<lparr>offset := a, rc := None\<rparr>,
            close_held ''Fetcher.Seek: failed to close ReadCloser'' T h e)"
  using assms by (cases "rc h") (simp_all add: Seek_def Let_def)

text \<open>
  C5. \<open>Seek\<close> on an open reader. The absolute position is the given
  offset (start), the current offset plus it (current) or the size plus it
  (end), the sums being those of \<open>int64\<close>. Seeking from the end with an
  unknown size fails with \<open>ErrUnavailable\<close>; an unrecognised \<open>whence\<close>
  or a negative position fails with \<open>ErrInvalidArgument\<close>; failures change
  nothing. Seeking to the current offset returns it and changes nothing, so
  a held connection stays. Seeking elsewhere returns the new offset, stores
  it, closes the held connection (if any) and sets \<open>rc\<close> to none.
\<close>

theorem Seek_open:
  assumes "\<not> closed h"
  shows "(whence = SeekEnd \<and> size_hrs h = - 1 \<longrightarrow>
            (\<exists>err. Seek T h off whence e = ((0, Some err), h, e)
               \<and> errors_Is err ErrUnavailable))
       \<and> (whence \<noteq> SeekStart \<and> whence \<noteq> SeekCurrent \<and> whence \<noteq> SeekEnd \<longrightarrow>
            (\<exists>err. Seek T h off whence e = ((0, Some err), h, e)
               \<and> errors_Is err ErrInvalidArgument))
       \<and> (\<forall>a. (whence = SeekStart \<and> a = off
                \<or> whence = SeekCurrent \<and> a = offset h + off
                \<or> whence = SeekEnd \<and> size_hrs h \<noteq> - 1 \<and> a = size_hrs h + off) \<longrightarrow>
              (a <s 0 \<longrightarrow>
                 (\<exists>err. Seek T h off whence e = ((0, Some err), h, e)
                    \<and> errors_Is err ErrInvalidArgument))
            \<and> (0 \<le>s a \<and> a = offset h \<longrightarrow> Seek T h off whence e = ((a, None), h, e))
            \<and> (0 \<le>s a \<and> a \<noteq> offset h \<longrightarrow>
                 (\<exists>e'. Seek T h off whence e = ((a, None), h\<lparr>offset := a, rc := None\<rparr>, e')
                    \<and> (case rc h of
                          None \<Rightarrow> e' = e
                        | Some r \<Rightarrow>
                            released ''Fetcher.Seek: failed to close ReadCloser'' T r e e'))))"
proof (intro conjI impI allI)
  assume "whence = SeekEnd \<and> size_hrs h = - 1"
  with assms show "\<exists>err. Seek T h off whence e = ((0, Some err), h, e)
               \<and> errors_Is err ErrUnavailable"
    by (simp add: Seek_def seek_abs_def SeekStart_def SeekCurrent_def SeekEnd_def)
next
  assume "whence \<noteq> SeekStart \<and> whence \<noteq> SeekCurrent \<and> whence \<noteq> SeekEnd"
  with assms show "\<exists>err. Seek T h off whence e = ((0, Some err), h, e)
               \<and> errors_Is err ErrInvalidArgument"
    by (simp add: Seek_def seek_abs_def)
next
  fix a
  assume t: "whence = SeekStart \<and> a = off
                \<or> whence = SeekCurrent \<and> a = offset h + off
                \<or> whence = SeekEnd \<and> size_hrs h \<noteq> - 1 \<and> a = size_hrs h + off"
  then have sa: "seek_abs h off whence = Inr a"
    by (auto simp: seek_abs_def SeekStart_def SeekCurrent_def SeekEnd_def)
  {
    assume "a <s 0"
    with assms sa show "\<exists>err. Seek T h off whence e = ((0, Some err), h, e)
                    \<and> errors_Is err ErrInvalidArgument"
      by (simp add: Seek_def)
  next
    assume "0 \<le>s a \<and> a = offset h"
    with assms sa show "Seek T h off whence e = ((a, None), h, e)"
      by (auto simp: Seek_def signed.not_less)
  next
    assume "0 \<le>s a \<and> a \<noteq> offset h"
    then have "\<not> a <s 0" "a \<noteq> offset h" by (simp_all add: signed.not_less)
    from Seek_moves [OF assms sa this, of T e]
    show "\<exists>e'. Seek T h off whence e = ((a, None), h\<lparr>offset := a, rc := None\<rparr>, e')
                    \<and> (case rc h of
                          None \<Rightarrow> e' = e
                        | Some r \<Rightarrow>
                            released ''Fetcher.Seek: failed to close ReadCloser'' T r e e')"
      by (auto simp: close_held_None close_held_released split: option.splits)
  }
qed

theorem Seek_open_witness:
  "Seek flakyT (newHTTPReadSeeker 100 (Some flaky_open)) 0 SeekStart (flaky_env [1, 2, 3] 0 0)
     = ((0, None), newHTTPReadSeeker 100 (Some flaky_open), flaky_env [1, 2, 3] 0 0)
   \<and> Seek flakyT
        \<lparr>size_hrs = 100, offset = 2, rc = Some (Conn 0), open_hrs = Some flaky_open,
          closed = False, errsWithNoProgress = 0\<rparr> 2 SeekStart
        \<lparr>world = \<lparr>blob = [1, 2, 3], fail_at = 0, fails_left = 0, conns = [2],
                   close_result = None\<rparr>,
          trace = [EvOpen 0, EvRead 0 2]\<rparr>
     = ((2, None),
        \<lparr>size_hrs = 100, offset = 2, rc = Some (Conn 0), open_hrs = Some flaky_open,
          closed = False, errsWithNoProgress = 0\<rparr>,
        \<lparr>world = \<lparr>blob = [1, 2, 3], fail_at = 0, fails_left = 0, conns = [2],
                   close_result = None\<rparr>,
          trace = [EvOpen 0, EvRead 0 2]\<rparr>)
   \<and> fst (Seek flakyT
        \<lparr>size_hrs = 100, offset = 2, rc = Some (Conn 0), open_hrs = Some flaky_open,
          closed = False, errsWithNoProgress = 0\<rparr> (- 10) SeekEnd
        \<lparr>world = \<lparr>blob = [1, 2, 3], fail_at = 0, fails_left = 0, conns = [2],
                   close_result = None\<rparr>,
          trace = [EvOpen 0, EvRead 0 2]\<rparr>) = (90, None)
   \<and> rc (fst (snd (Seek flakyT
        \<lparr>size_hrs = 100, offset = 2, rc = Some (Conn 0), open_hrs = Some flaky_open,
          closed = False, errsWithNoProgress = 0\<rparr> (- 10) SeekEnd
        \<lparr>world = \<lparr>blob = [1, 2, 3], fail_at = 0, fails_left = 0, conns = [2],
                   close_result = None\<rparr>,
          trace = [EvOpen 0, EvRead 0 2]\<rparr>))) = None
   \<and> trace (snd (snd (Seek flakyT
        \<lparr>size_hrs = 100, offset = 2, rc = Some (Conn 0), open_hrs = Some flaky_open,
          closed = False, errsWithNoProgress = 0\<rparr> (- 10) SeekEnd
        \<lparr>world = \<lparr>blob = [1, 2, 3], fail_at = 0, fails_left = 0, conns = [2],
                   close_result = None\<rparr>,
          trace = [EvOpen 0, EvRead 0 2]\<rparr>))) = [EvOpen 0, EvRead 0 2, EvClose 0]
   \<and> (\<exists>err. fst (Seek flakyT (newHTTPReadSeeker (- 1) (Some flaky_open)) 0 SeekEnd
                    (flaky_env [1, 2, 3] 0 0)) = (0, Some err)
          \<and> errors_Is err ErrUnavailable)
   \<and> (\<exists>err. fst (Seek flakyT (newHTTPReadSeeker 100 (Some flaky_open)) 0 7
                    (flaky_env [1, 2, 3] 0 0)) = (0, Some err)
          \<and> errors_Is err ErrInvalidArgument)
   \<and> (\<exists>err. fst (Seek flakyT (newHTTPReadSeeker 100 (Some flaky_open)) (- 1) SeekCurrent
                    (flaky_env [1, 2, 3] 0 0)) = (0, Some err)
          \<and> errors_Is err ErrInvalidArgument)"
proof -
  let ?h0 = "newHTTPReadSeeker 100 (Some flaky_open) :: (nat, flaky) httpReadSeeker"
  let ?e0 = "flaky_env [1, 2, 3] 0 0"
  let ?h1 = "\<lparr>size_hrs = 100, offset = 2, rc = Some (Conn 0), open_hrs = Some flaky_open,
          closed = False, errsWithNoProgress = 0\<rparr> :: (nat, flaky) httpReadSeeker"
  let ?e1 = "\<lparr>world = \<lparr>blob = [1, 2, 3], fail_at = 0, fails_left = 0, conns = [2],
                   close_result = None\<rparr>,
          trace = [EvOpen 0, EvRead 0 2]\<rparr> :: (nat, flaky) env"
  let ?hu = "newHTTPReadSeeker (- 1) (Some flaky_open) :: (nat, flaky) httpReadSeeker"
  have c0: "\<not> closed ?h0" and c1: "\<not> closed ?h1" and cu: "\<not> closed ?hu"
    by (simp_all add: newHTTPReadSeeker_def)
  have a: "Seek flakyT ?h0 0 SeekStart ?e0 = ((0, None), ?h0, ?e0)"
    using Seek_open [OF c0, where T = flakyT and off = 0 and whence = SeekStart and e = ?e0]
    by (simp add: newHTTPReadSeeker_def word_sle_eq)
  have b: "Seek flakyT ?h1 2 SeekStart ?e1 = ((2, None), ?h1, ?e1)"
    using Seek_open [OF c1, where T = flakyT and off = 2 and whence = SeekStart and e = ?e1]
    by (simp add: word_sle_eq)
  have c: "\<exists>e'. Seek flakyT ?h1 (- 10) SeekEnd ?e1 = ((90, None), ?h1\<lparr>offset := 90, rc := None\<rparr>, e')
             \<and> trace e' = [EvOpen 0, EvRead 0 2, EvClose 0]"
    using Seek_open [OF c1, where T = flakyT and off = "- 10" and whence = SeekEnd and e = ?e1]
    by (auto simp: word_sle_eq SeekEnd_def SeekStart_def SeekCurrent_def released_def
        flakyT_def flaky_Close_def)
  have d: "\<exists>err. fst (Seek flakyT ?hu 0 SeekEnd ?e0) = (0, Some err) \<and> errors_Is err ErrUnavailable"
    using Seek_open [OF cu, where T = flakyT and off = 0 and whence = SeekEnd and e = ?e0]
    by (auto simp: newHTTPReadSeeker_def)
  have f: "\<exists>err. fst (Seek flakyT ?h0 0 7 ?e0) = (0, Some err) \<and> errors_Is err ErrInvalidArgument"
    using Seek_open [OF c0, where T = flakyT and off = 0 and whence = 7 and e = ?e0]
    by (auto simp: SeekEnd_def SeekStart_def SeekCurrent_def)
  have g: "\<exists>err. fst (Seek flakyT ?h0 (- 1) SeekCurrent ?e0) = (0, Some err)
             \<and> errors_Is err ErrInvalidArgument"
    using Seek_open [OF c0, where T = flakyT and off = "- 1" and whence = SeekCurrent and e = ?e0]
    by (auto simp: SeekEnd_def SeekStart_def SeekCurrent_def newHTTPReadSeeker_def word_sless_alt)
  from a b c d f g show ?thesis by auto
qed

subsection \<open>The closed flag\<close>

lemma Seek_closed_flag:
  "Seek T h off whence e = (r, h', e') \<Longrightarrow> closed h' = closed h"
  by (auto simp: Seek_def Let_def split: if_splits sum.splits option.splits)

lemma ReadAt_state:
  assumes "ReadAt T h L off e = Some (r, h', e')"
  shows "h' = h" and "closed h \<Longrightarrow> e' = e"
  using assms
  by (auto simp: ReadAt_def split: if_splits option.splits prod.splits sum.splits)

lemma ReadAt_closed:
  "closed h \<Longrightarrow>
   ReadAt T h L off e =
     Some (([], Some (Errorf ''httpReadSeeker.ReadAt: closed: %w'' [] ErrUnavailable)), h, e)"
  by (simp add: ReadAt_def)

lemma Close_open_result:
  assumes "\<not> closed h" and "Close T h e = (r, h', e')"
  shows "h' = h\<lparr>closed := True\<rparr>"
    and "case rc h of
           None \<Rightarrow> r = None \<and> e' = e
         | Some NopCloser \<Rightarrow> r = None \<and> e' = e
         | Some (Conn c) \<Rightarrow>
             r = fst (conn_Close T c (world e))
             \<and> world e' = snd (conn_Close T c (world e))
             \<and> trace e' = trace e @ [EvClose c]"
  using assms
  by (auto simp: Close_open split: option.splits readcloser.splits prod.splits)

text \<open>
  C8 (amended). On an open reader \<open>Close\<close> sets the flag, leaves every
  other field as it was (so \<open>rc\<close> is not reset) and calls \<open>Close\<close> on the
  connection \<open>rc\<close> holds, as its only call to a collaborator, returning what
  that call returns. On a closed reader \<open>Read\<close>, \<open>ReadAt\<close>, \<open>Seek\<close> and
  \<open>Close\<close> change neither the reader nor the world, and no operation clears
  the flag. So \<open>closed_released\<close> holds of a new reader and is preserved by
  every operation: once \<open>closed\<close> is true, the connection \<open>rc\<close> refers to
  has been closed and nothing was called after that close.
\<close>

theorem closed_released_invariant:
  assumes "closed_released h e"
  shows "(case Read T h L e of
            (r, h', e') \<Rightarrow>
              closed_released h' e' \<and> closed h' = closed h \<and> (closed h \<longrightarrow> h' = h \<and> e' = e))
       \<and> (case ReadAt T h L off e of
            None \<Rightarrow> \<not> closed h
          | Some (r, h', e') \<Rightarrow> closed_released h' e' \<and> h' = h \<and> (closed h \<longrightarrow> e' = e))
       \<and> (case Seek T h off whence e of
            (r, h', e') \<Rightarrow>
              closed_released h' e' \<and> closed h' = closed h \<and> (closed h \<longrightarrow> h' = h \<and> e' = e))
       \<and> (case Close T h e of
            (r, h', e') \<Rightarrow>
              closed h' \<and> closed_released h' e' \<and> rc h' = rc h
              \<and> (closed h \<longrightarrow> r = None \<and> h' = h \<and> e' = e)
              \<and> (\<not> closed h \<longrightarrow>
                   h' = h\<lparr>closed := True\<rparr>
                   \<and> (case rc h of
                         None \<Rightarrow> r = None \<and> e' = e
                       | Some NopCloser \<Rightarrow> r = None \<and> e' = e
                       | Some (Conn c) \<Rightarrow>
                           r = fst (conn_Close T c (world e))
                           \<and> world e' = snd (conn_Close T c (world e))
                           \<and> trace e' = trace e @ [EvClose c])))
       \<and> closed_released (newHTTPReadSeeker sz opn) e
       \<and> \<not> closed (newHTTPReadSeeker sz opn)"
proof (intro conjI)
  show "case Read T h L e of
            (r, h', e') \<Rightarrow>
              closed_released h' e' \<and> closed h' = closed h \<and> (closed h \<longrightarrow> h' = h \<and> e' = e)"
  proof (cases "closed h")
    case True
    with assms show ?thesis by (simp add: Read_closed)
  next
    case False
    obtain bs err h' e' where r: "Read T h L e = ((bs, err), h', e')"
      by (cases "Read T h L e") auto
    from Read_result(1) [OF r] False r show ?thesis by (simp add: closed_released_def)
  qed
next
  show "case ReadAt T h L off e of
            None \<Rightarrow> \<not> closed h
          | Some (r, h', e') \<Rightarrow> closed_released h' e' \<and> h' = h \<and> (closed h \<longrightarrow> e' = e)"
  proof (cases "closed h")
    case True
    with assms show ?thesis by (simp add: ReadAt_closed)
  next
    case False
    show ?thesis
    proof (cases "ReadAt T h L off e")
      case None
      with False show ?thesis by simp
    next
      case (Some x)
      obtain r h' e' where x: "x = (r, h', e')" by (cases x) auto
      from ReadAt_state(1) [OF Some [unfolded x]] False Some x show ?thesis
        by (simp add: closed_released_def)
    qed
  qed
next
  show "case Seek T h off whence e of
            (r, h', e') \<Rightarrow>
              closed_released h' e' \<and> closed h' = closed h \<and> (closed h \<longrightarrow> h' = h \<and> e' = e)"
  proof (cases "closed h")
    case True
    with assms show ?thesis by (simp add: Seek_closed)
  next
    case False
    obtain r h' e' where r: "Seek T h off whence e = (r, h', e')"
      by (cases "Seek T h off whence e") auto
    from Seek_closed_flag [OF r] False r show ?thesis by (simp add: closed_released_def)
  qed
next
  show "case Close T h e of
            (r, h', e') \<Rightarrow>
              closed h' \<and> closed_released h' e' \<and> rc h' = rc h
              \<and> (closed h \<longrightarrow> r = None \<and> h' = h \<and> e' = e)
              \<and> (\<not> closed h \<longrightarrow>
                   h' = h\<lparr>closed := True\<rparr>
                   \<and> (case rc h of
                         None \<Rightarrow> r = None \<and> e' = e
                       | Some NopCloser \<Rightarrow> r = None \<and> e' = e
                       | Some (Conn c) \<Rightarrow>
                           r = fst (conn_Close T c (world e))
                           \<and> world e' = snd (conn_Close T c (world e))
                           \<and> trace e' = trace e @ [EvClose c]))"
  proof (cases "closed h")
    case True
    with assms show ?thesis by (simp add: Close_closed)
  next
    case False
    obtain r h' e' where c: "Close T h e = (r, h', e')"
      by (cases "Close T h e") auto
    note cr = Close_open_result [OF False c]
    from cr(1) have f: "closed h'" "rc h' = rc h" by simp_all
    from cr(2) f have "closed_released h' e'"
      by (auto simp: closed_released_def split: option.splits readcloser.splits)
    with c cr f False show ?thesis by simp
  qed
next
  show "closed_released (newHTTPReadSeeker sz opn) e"
    by (simp add: closed_released_def newHTTPReadSeeker_def)
next
  show "\<not> closed (newHTTPReadSeeker sz opn)"
    by (simp add: newHTTPReadSeeker_def)
qed

text \<open>
  The claim as stated fails: after one \<open>Read\<close> and a \<open>Close\<close>, the flag
  is set and \<open>rc\<close> still holds the connection (which has been closed).
\<close>

theorem closed_released_counterexample:
  "Read flakyT (newHTTPReadSeeker (- 1) (Some flaky_open)) 2 (flaky_env [1, 2, 3] 0 0)
     = (([1, 2], None),
        \<lparr>size_hrs = - 1, offset = 2, rc = Some (Conn 0), open_hrs = Some flaky_open,
          closed = False, errsWithNoProgress = 0\<rparr>,
        \<lparr>world = \<lparr>blob = [1, 2, 3], fail_at = 0, fails_left = 0, conns = [2],
                   close_result = None\<rparr>,
          trace = [EvOpen 0, EvRead 0 2]\<rparr>)
   \<and> Close flakyT
        \<lparr>size_hrs = - 1, offset = 2, rc = Some (Conn 0), open_hrs = Some flaky_open,
          closed = False, errsWithNoProgress = 0\<rparr>
        \<lparr>world = \<lparr>blob = [1, 2, 3], fail_at = 0, fails_left = 0, conns = [2],
                   close_result = None\<rparr>,
          trace = [EvOpen 0, EvRead 0 2]\<rparr>
     = (None,
        \<lparr>size_hrs = - 1, offset = 2, rc = Some (Conn 0), open_hrs = Some flaky_open,
          closed = True, errsWithNoProgress = 0\<rparr>,
        \<lparr>world = \<lparr>blob = [1, 2, 3], fail_at = 0, fails_left = 0, conns = [2],
                   close_result = None\<rparr>,
          trace = [EvOpen 0, EvRead 0 2, EvClose 0]\<rparr>)
   \<and> closed (fst (snd (Close flakyT
        \<lparr>size_hrs = - 1, offset = 2, rc = Some (Conn 0), open_hrs = Some flaky_open,
          closed = False, errsWithNoProgress = 0\<rparr>
        \<lparr>world = \<lparr>blob = [1, 2, 3], fail_at = 0, fails_left = 0, conns = [2],
                   close_result = None\<rparr>,
          trace = [EvOpen 0, EvRead 0 2]\<rparr>)))
   \<and> rc (fst (snd (Close flakyT
        \<lparr>size_hrs = - 1, offset = 2, rc = Some (Conn 0), open_hrs = Some flaky_open,
          closed = False, errsWithNoProgress = 0\<rparr>
        \<lparr>world = \<lparr>blob = [1, 2, 3], fail_at = 0, fails_left = 0, conns = [2],
                   close_result = None\<rparr>,
          trace = [EvOpen 0, EvRead 0 2]\<rparr>))) \<noteq> None"
  by (simp add: flaky_eval Close_def)

theorem closed_released_invariant_witness:
  "closed_released
     (\<lparr>size_hrs = - 1, offset = 2, rc = Some (Conn 0), open_hrs = Some flaky_open,
        closed = False, errsWithNoProgress = 0\<rparr> :: (nat, flaky) httpReadSeeker)
     \<lparr>world = \<lparr>blob = [1, 2, 3], fail_at = 0, fails_left = 0, conns = [2],
                close_result = Some (Other ''close failed'')\<rparr>,
       trace = [EvOpen 0, EvRead 0 2]\<rparr>
   \<and> Close flakyT
        \<lparr>size_hrs = - 1, offset = 2, rc = Some (Conn 0), open_hrs = Some flaky_open,
          closed = False, errsWithNoProgress = 0\<rparr>
        \<lparr>world = \<lparr>blob = [1, 2, 3], fail_at = 0, fails_left = 0, conns = [2],
                   close_result = Some (Other ''close failed'')\<rparr>,
          trace = [EvOpen 0, EvRead 0 2]\<rparr>
     = (Some (Other ''close failed''),
        \<lparr>size_hrs = - 1, offset = 2, rc = Some (Conn 0), open_hrs = Some flaky_open,
          closed = True, errsWithNoProgress = 0\<rparr>,
        \<lparr>world = \<lparr>blob = [1, 2, 3], fail_at = 0, fails_left = 0, conns = [2],
                   close_result = Some (Other ''close failed'')\<rparr>,
          trace = [EvOpen 0, EvRead 0 2, EvClose 0]\<rparr>)
   \<and> closed_released
     (\<lparr>size_hrs = - 1, offset = 2, rc = Some (Conn 0), open_hrs = Some flaky_open,
        closed = True, errsWithNoProgress = 0\<rparr> :: (nat, flaky) httpReadSeeker)
     \<lparr>world = \<lparr>blob = [1, 2, 3], fail_at = 0, fails_left = 0, conns = [2],
                close_result = Some (Other ''close failed'')\<rparr>,
       trace = [EvOpen 0, EvRead 0 2, EvClose 0]\<rparr>
   \<and> Read flakyT
        \<lparr>size_hrs = - 1, offset = 2, rc = Some (Conn 0), open_hrs = Some flaky_open,
          closed = True, errsWithNoProgress = 0\<rparr> 2
        \<lparr>world = \<lparr>blob = [1, 2, 3], fail_at = 0, fails_left = 0, conns = [2],
                   close_result = Some (Other ''close failed'')\<rparr>,
          trace = [EvOpen 0, EvRead 0 2, EvClose 0]\<rparr>
     = (([], Some EOF),
        \<lparr>size_hrs = - 1, offset = 2, rc = Some (Conn 0), open_hrs = Some flaky_open,
          closed = True, errsWithNoProgress = 0\<rparr>,
        \<lparr>world = \<lparr>blob = [1, 2, 3], fail_at = 0, fails_left = 0, conns = [2],
                   close_result = Some (Other ''close failed'')\<rparr>,
          trace = [EvOpen 0, EvRead 0 2, EvClose 0]\<rparr>)"
proof -
  let ?h = "\<lparr>size_hrs = - 1, offset = 2, rc = Some (Conn 0), open_hrs = Some flaky_open,
        closed = False, errsWithNoProgress = 0\<rparr> :: (nat, flaky) httpReadSeeker"
  let ?e = "\<lparr>world = \<lparr>blob = [1, 2, 3], fail_at = 0, fails_left = 0, conns = [2],
                close_result = Some (Other ''close failed'')\<rparr>,
       trace = [EvOpen 0, EvRead 0 2]\<rparr> :: (nat, flaky) env"
  let ?hc = "\<lparr>size_hrs = - 1, offset = 2, rc = Some (Conn 0), open_hrs = Some flaky_open,
        closed = True, errsWithNoProgress = 0\<rparr> :: (nat, flaky) httpReadSeeker"
  let ?ec = "\<lparr>world = \<lparr>blob = [1, 2, 3], fail_at = 0, fails_left = 0, conns = [2],
                close_result = Some (Other ''close failed'')\<rparr>,
       trace = [EvOpen 0, EvRead 0 2, EvClose 0]\<rparr> :: (nat, flaky) env"
  have i: "closed_released ?h ?e" by (simp add: closed_released_def)
  have c: "Close flakyT ?h ?e = (Some (Other ''close failed''), ?hc, ?ec)"
    using closed_released_invariant [OF i, where T = flakyT]
    by (cases "Close flakyT ?h ?e") (auto simp: flakyT_def flaky_Close_def)
  have j: "closed_released ?hc ?ec"
    using closed_released_invariant [OF i, where T = flakyT] c by simp
  have r: "Read flakyT ?hc 2 ?ec = (([], Some EOF), ?hc, ?ec)"
    using closed_released_invariant [OF j, where T = flakyT and L = 2] Read_closed [of ?hc flakyT 2 ?ec]
    by simp
  from i c j r show ?thesis by - (intro conjI; assumption)
qed

subsection \<open>\<open>io.ReadFull\<close> and \<open>ReadAt\<close>\<close>

lemma only_reads_simps [simp]:
  "only_reads c []"
  "only_reads c (EvRead c n # evs) = only_reads c evs"
  by (auto simp: only_reads_def)

lemma rc_Read_Conn:
  "rc_Read T (Conn c) n e =
     (fst (conn_Read T c n (world e)),
      e\<lparr>world := snd (conn_Read T c n (world e)), trace := trace e @ [EvRead c n]\<rparr>)"
  by (simp add: case_prod_unfold)

lemma rc_Read_Conn_trace:
  assumes "rc_Read T (Conn c) n e = ((bs, err), e')"
  shows "trace e' = trace e @ [EvRead c n]"
    and "bs = fst (fst (conn_Read T c n (world e)))"
    and "err = snd (fst (conn_Read T c n (world e)))"
proof -
  from assms have "fst (conn_Read T c n (world e)) = (bs, err)"
    and e': "e' = e\<lparr>world := snd (conn_Read T c n (world e)), trace := trace e @ [EvRead c n]\<rparr>"
    unfolding rc_Read_Conn by simp_all
  then show "bs = fst (fst (conn_Read T c n (world e)))"
    and "err = snd (fst (conn_Read T c n (world e)))" by simp_all
  from e' show "trace e' = trace e @ [EvRead c n]" by simp
qed

lemma ReadAtLeast_loop_result:
  assumes "ReadAtLeast_loop T c L m acc err e = Some y"
  shows "(m \<le> length (fst (fst y)) \<or> snd (fst y) \<noteq> None)
       \<and> (\<exists>rds. trace (snd y) = trace e @ rds \<and> only_reads c rds)
       \<and> (honours_Read T c \<longrightarrow> length acc \<le> L \<longrightarrow> length (fst (fst y)) \<le> L)"
proof -
  let ?P = "\<lambda>T c L m acc (err :: error option) e y.
       (m \<le> length (fst (fst y)) \<or> snd (fst y) \<noteq> None)
       \<and> (\<exists>rds. trace (snd y) = trace e @ rds \<and> only_reads c rds)
       \<and> (honours_Read T c \<longrightarrow> length acc \<le> L \<longrightarrow> length (fst (fst y)) \<le> L)"
  have "?P T c L m acc err e y"
  proof (rule ReadAtLeast_loop.raw_induct [where P = ?P, OF _ assms], goal_cases)
    case (1 loop T c L m acc err e y)
    show ?case
    proof (cases "length acc < m \<and> err = None")
      case False
      with 1(2) show ?thesis by auto
    next
      case True
      obtain bs err' e' where r: "rc_Read T (Conn c) (L - length acc) e = ((bs, err'), e')"
        by (cases "rc_Read T (Conn c) (L - length acc) e") auto
      with True 1(2) have l: "loop T c L m (acc @ bs) err' e' = Some y" by simp
      note ih = 1(1) [OF l]
      note t = rc_Read_Conn_trace(1) [OF r] and b = rc_Read_Conn_trace(2) [OF r]
      have h: "length (acc @ bs) \<le> L" if "honours_Read T c" and "length acc \<le> L"
      proof -
        from that(1) have "length bs \<le> L - length acc"
          unfolding b honours_Read_def by blast
        with that(2) show ?thesis by simp
      qed
      from ih obtain rds where rds: "trace (snd y) = trace e' @ rds" "only_reads c rds"
        by blast
      from rds t have "trace (snd y) = trace e @ (EvRead c (L - length acc) # rds)"
        and "only_reads c (EvRead c (L - length acc) # rds)" by simp_all
      then have "\<exists>rds. trace (snd y) = trace e @ rds \<and> only_reads c rds" by blast
      with ih h show ?thesis by blast
    qed
  qed
  then show ?thesis .
qed

lemma ReadAtLeast_loop_terminates:
  assumes "progresses T c" and "m \<le> L"
  shows "\<exists>y. ReadAtLeast_loop T c L m acc err e = Some y"
proof (induction "m - length acc" arbitrary: acc err e rule: less_induct)
  case less
  show ?case
  proof (cases "length acc < m \<and> err = None")
    case False
    then show ?thesis by (subst ReadAtLeast_loop.simps) auto
  next
    case True
    obtain bs err' e' where r: "rc_Read T (Conn c) (L - length acc) e = ((bs, err'), e')"
      by (cases "rc_Read T (Conn c) (L - length acc) e") auto
    from True assms(2) have "0 < L - length acc" by simp
    with assms(1) have p: "bs \<noteq> [] \<or> err' \<noteq> None"
      unfolding progresses_def rc_Read_Conn_trace(2) [OF r] rc_Read_Conn_trace(3) [OF r]
      by blast
    have "\<exists>y. ReadAtLeast_loop T c L m (acc @ bs) err' e' = Some y"
    proof (cases "err' = None")
      case False
      then show ?thesis by (subst ReadAtLeast_loop.simps) auto
    next
      case True
      with p have "bs \<noteq> []" by simp
      with \<open>length acc < m \<and> err = None\<close> have "m - length (acc @ bs) < m - length acc"
        by (cases bs) auto
      from less [OF this] show ?thesis .
    qed
    with True r show ?thesis by (subst ReadAtLeast_loop.simps) auto
  qed
qed

lemma ReadFull_result:
  assumes "ReadFull T c L e = Some ((bs, err), e')"
  shows "(err = None \<longleftrightarrow> L \<le> length bs)
       \<and> (\<exists>rds. trace e' = trace e @ rds \<and> only_reads c rds)
       \<and> (honours_Read T c \<longrightarrow> length bs \<le> L)"
proof -
  from assms obtain err0 where
    l: "ReadAtLeast_loop T c L L [] None e = Some ((bs, err0), e')"
    and e: "err = (if L \<le> length bs then None
                   else if 0 < length bs \<and> err0 = Some EOF then Some ErrUnexpectedEOF
                   else err0)"
    by (auto simp: ReadFull_def split: option.splits prod.splits)
  from ReadAtLeast_loop_result [OF l] e show ?thesis by auto
qed

lemma ReadFull_terminates:
  assumes "progresses T c"
  shows "ReadFull T c L e \<noteq> None"
proof -
  from ReadAtLeast_loop_terminates [OF assms, of L L "[]" None e]
  obtain y where "ReadAtLeast_loop T c L L [] None e = Some y" by blast
  then show ?thesis by (simp add: ReadFull_def split: prod.splits)
qed

lemma ReadAt_opened:
  assumes "\<not> closed h" and "\<not> off <s 0" and "size_hrs h = - 1 \<or> off <s size_hrs h"
    and "open_hrs h = Some opn" and "opn off (world e) = (Inr c, w')"
  shows "ReadAt T h L off e =
           (case ReadFull T c L (e\<lparr>world := w', trace := trace e @ [EvOpen off]\<rparr>) of
              None \<Rightarrow> None
            | Some (res, e1) \<Rightarrow>
                Some (res, h,
                      close_held ''httpReadSeeker.ReadAt: failed to close ReadCloser'' T
                        (h\<lparr>rc := Some (Conn c)\<rparr>) e1))"
  using assms
  by (auto simp: ReadAt_def close_held_def signed.not_less [symmetric]
      split: option.splits prod.splits)

text \<open>
  C3. \<open>ReadAt\<close> on an open reader with an opener, at a valid offset. The
  opener is called once, at that offset, before anything else. If it fails,
  its error is returned wrapped and there is no connection. If it returns a
  connection \<open>c\<close>, then \<open>ReadAt\<close> returns exactly when \<open>io.ReadFull\<close>
  does, which it does whenever \<open>c\<close> makes progress; when it returns, the
  reader is unchanged (\<open>c\<close> never becomes reader state), the error is nil
  if and only if the buffer was filled (and a connection honouring the
  \<open>io.Reader\<close> contract never gives more than \<open>L\<close> bytes), and the calls
  made after the opener are reads of \<open>c\<close> followed by the close of \<open>c\<close>,
  on success and on failure alike.
\<close>

theorem ReadAt_private_connection:
  assumes "\<not> closed h" and "\<not> off <s 0" and "size_hrs h = - 1 \<or> off <s size_hrs h"
    and "open_hrs h = Some opn"
  shows "case opn off (world e) of
           (Inl oerr, w') \<Rightarrow>
             ReadAt T h L off e =
               Some (([], Some (Errorf ''httpReadSeeker.ReadAt: failed to open at offset %d: %w''
                                  [off] oerr)), h,
                     e\<lparr>world := w', trace := trace e @ [EvOpen off]\<rparr>)
         | (Inr c, w') \<Rightarrow>
             (case ReadAt T h L off e of
                None \<Rightarrow> ReadFull T c L (e\<lparr>world := w', trace := trace e @ [EvOpen off]\<rparr>) = None
              | Some ((bs, err), h', e') \<Rightarrow>
                  h' = h \<and> (err = None \<longleftrightarrow> L \<le> length bs)
                  \<and> (honours_Read T c \<longrightarrow> length bs \<le> L)
                  \<and> (\<exists>rds e1. only_reads c rds \<and> trace e1 = trace e @ EvOpen off # rds
                       \<and> released ''httpReadSeeker.ReadAt: failed to close ReadCloser'' T
                            (Conn c) e1 e'))
             \<and> (progresses T c \<longrightarrow> ReadAt T h L off e \<noteq> None)"
proof -
  obtain r w' where o: "opn off (world e) = (r, w')"
    by (cases "opn off (world e)") auto
  show ?thesis
  proof (cases r)
    case (Inl oerr)
    with assms o show ?thesis
      by (simp add: ReadAt_def signed.not_less [symmetric])
  next
    case (Inr c)
    with o have o': "opn off (world e) = (Inr c, w')" by simp
    let ?e0 = "e\<lparr>world := w', trace := trace e @ [EvOpen off]\<rparr>"
    note ra = ReadAt_opened [OF assms o', where T = T and L = L]
    have t: "progresses T c \<longrightarrow> ReadAt T h L off e \<noteq> None"
      using ReadFull_terminates [of T c L ?e0] ra by (auto split: option.splits)
    have m: "case ReadAt T h L off e of
                None \<Rightarrow> ReadFull T c L ?e0 = None
              | Some ((bs, err), h', e') \<Rightarrow>
                  h' = h \<and> (err = None \<longleftrightarrow> L \<le> length bs)
                  \<and> (honours_Read T c \<longrightarrow> length bs \<le> L)
                  \<and> (\<exists>rds e1. only_reads c rds \<and> trace e1 = trace e @ EvOpen off # rds
                       \<and> released ''httpReadSeeker.ReadAt: failed to close ReadCloser'' T
                            (Conn c) e1 e')"
    proof (cases "ReadFull T c L ?e0")
      case None
      with ra show ?thesis by simp
    next
      case (Some y)
      obtain bs err e1 where y: "y = ((bs, err), e1)" by (cases y) auto
      from ReadFull_result [OF Some [unfolded y]]
      obtain rds where f: "err = None \<longleftrightarrow> L \<le> length bs"
        "honours_Read T c \<longrightarrow> length bs \<le> L"
        "trace e1 = trace ?e0 @ rds" "only_reads c rds" by blast
      have rel: "released ''httpReadSeeker.ReadAt: failed to close ReadCloser'' T (Conn c) e1
              (close_held ''httpReadSeeker.ReadAt: failed to close ReadCloser'' T
                 (h\<lparr>rc := Some (Conn c)\<rparr>) e1)"
        by (rule close_held_released) simp
      from f(3) have "trace e1 = trace e @ EvOpen off # rds" by simp
      with f(4) rel have "\<exists>rds e1'. only_reads c rds \<and> trace e1' = trace e @ EvOpen off # rds
                       \<and> released ''httpReadSeeker.ReadAt: failed to close ReadCloser'' T
                            (Conn c) e1'
                            (close_held ''httpReadSeeker.ReadAt: failed to close ReadCloser'' T
                               (h\<lparr>rc := Some (Conn c)\<rparr>) e1)"
        by blast
      with ra Some y f(1,2) show ?thesis by simp
    qed
    from m t o' show ?thesis by simp
  qed
qed

lemma flaky_honours: "honours_Read flakyT c"
  by (auto simp: honours_Read_def flakyT_def flaky_Read_def Let_def)

lemma flaky_progresses: "progresses flakyT c"
  by (auto simp: progresses_def flakyT_def flaky_Read_def Let_def)

lemma ReadAt_flaky_full:
  "ReadAt flakyT (newHTTPReadSeeker 5 (Some flaky_open)) 2 1 (flaky_env [1, 2, 3, 4, 5] 0 0)
     = Some (([2, 3], None), newHTTPReadSeeker 5 (Some flaky_open),
             \<lparr>world = \<lparr>blob = [1, 2, 3, 4, 5], fail_at = 0, fails_left = 0, conns = [3],
                        close_result = None\<rparr>,
               trace = [EvOpen 1, EvRead 0 2, EvClose 0]\<rparr>)"
  by (simp add: ReadAt_def ReadFull_def ReadAtLeast_loop.simps flaky_eval)

lemma ReadAt_flaky_short:
  "ReadAt flakyT (newHTTPReadSeeker 5 (Some flaky_open)) 4 3 (flaky_env [1, 2, 3, 4, 5] 0 0)
     = Some (([4, 5], Some ErrUnexpectedEOF), newHTTPReadSeeker 5 (Some flaky_open),
             \<lparr>world = \<lparr>blob = [1, 2, 3, 4, 5], fail_at = 0, fails_left = 0, conns = [5],
                        close_result = None\<rparr>,
               trace = [EvOpen 3, EvRead 0 4, EvRead 0 2, EvClose 0]\<rparr>)"
  by (simp add: ReadAt_def ReadFull_def ReadAtLeast_loop.simps flaky_eval)

theorem ReadAt_private_connection_witness:
  "\<not> closed (newHTTPReadSeeker 5 (Some flaky_open) :: (nat, flaky) httpReadSeeker)
   \<and> \<not> (1 :: int64) <s 0
   \<and> (1 :: int64) <s size_hrs (newHTTPReadSeeker 5 (Some flaky_open) :: (nat, flaky) httpReadSeeker)
   \<and> honours_Read flakyT (0 :: nat) \<and> progresses flakyT (0 :: nat)
   \<and> ReadAt flakyT (newHTTPReadSeeker 5 (Some flaky_open)) 2 1 (flaky_env [1, 2, 3, 4, 5] 0 0)
       \<noteq> None
   \<and> (case ReadAt flakyT (newHTTPReadSeeker 5 (Some flaky_open)) 2 1
             (flaky_env [1, 2, 3, 4, 5] 0 0) of
        None \<Rightarrow> False
      | Some ((bs, err), h', e') \<Rightarrow>
          h' = newHTTPReadSeeker 5 (Some flaky_open) \<and> (err = None) = (2 \<le> length bs)
          \<and> length bs \<le> 2)
   \<and> ReadAt flakyT (newHTTPReadSeeker 5 (Some flaky_open)) 2 1 (flaky_env [1, 2, 3, 4, 5] 0 0)
     = Some (([2, 3], None), newHTTPReadSeeker 5 (Some flaky_open),
             \<lparr>world = \<lparr>blob = [1, 2, 3, 4, 5], fail_at = 0, fails_left = 0, conns = [3],
                        close_result = None\<rparr>,
               trace = [EvOpen 1, EvRead 0 2, EvClose 0]\<rparr>)
   \<and> ReadAt flakyT (newHTTPReadSeeker 5 (Some flaky_open)) 4 3 (flaky_env [1, 2, 3, 4, 5] 0 0)
     = Some (([4, 5], Some ErrUnexpectedEOF), newHTTPReadSeeker 5 (Some flaky_open),
             \<lparr>world = \<lparr>blob = [1, 2, 3, 4, 5], fail_at = 0, fails_left = 0, conns = [5],
                        close_result = None\<rparr>,
               trace = [EvOpen 3, EvRead 0 4, EvRead 0 2, EvClose 0]\<rparr>)
   \<and> ReadAt flakyT (newHTTPReadSeeker 5 (Some flaky_open_once)) 2 1
      \<lparr>world = \<lparr>blob = [1, 2, 3, 4, 5], fail_at = 0, fails_left = 0, conns = [0],
                 close_result = None\<rparr>, trace = []\<rparr>
     = Some (([], Some (Errorf ''httpReadSeeker.ReadAt: failed to open at offset %d: %w'' [1]
                          (Other ''connection refused''))),
             newHTTPReadSeeker 5 (Some flaky_open_once),
             \<lparr>world = \<lparr>blob = [1, 2, 3, 4, 5], fail_at = 0, fails_left = 0, conns = [0],
                        close_result = None\<rparr>, trace = [EvOpen 1]\<rparr>)"
proof -
  let ?h = "newHTTPReadSeeker 5 (Some flaky_open) :: (nat, flaky) httpReadSeeker"
  let ?e = "flaky_env [1, 2, 3, 4, 5] 0 0"
  have a: "\<not> closed ?h" and b: "\<not> (1 :: int64) <s 0" and c: "(1 :: int64) <s size_hrs ?h"
    and d: "open_hrs ?h = Some flaky_open"
    by (simp_all add: newHTTPReadSeeker_def word_sless_alt)
  have o: "flaky_open 1 (world ?e)
             = (Inr 0, \<lparr>blob = [1, 2, 3, 4, 5], fail_at = 0, fails_left = 0, conns = [1],
                         close_result = None\<rparr>)"
    by (simp add: flaky_open_def flaky_env_def)
  let ?h' = "newHTTPReadSeeker 5 (Some flaky_open_once) :: (nat, flaky) httpReadSeeker"
  have a': "\<not> closed ?h'" and c': "(1 :: int64) <s size_hrs ?h'"
    and d': "open_hrs ?h' = Some flaky_open_once"
    by (simp_all add: newHTTPReadSeeker_def word_sless_alt)
  have r: "ReadAt flakyT ?h' 2 1
      \<lparr>world = \<lparr>blob = [1, 2, 3, 4, 5], fail_at = 0, fails_left = 0, conns = [0],
                 close_result = None\<rparr>, trace = []\<rparr>
     = Some (([], Some (Errorf ''httpReadSeeker.ReadAt: failed to open at offset %d: %w'' [1]
                          (Other ''connection refused''))),
             ?h',
             \<lparr>world = \<lparr>blob = [1, 2, 3, 4, 5], fail_at = 0, fails_left = 0, conns = [0],
                        close_result = None\<rparr>, trace = [EvOpen 1]\<rparr>)"
    using ReadAt_private_connection [OF a' b disjI2 [OF c'] d', where T = flakyT and L = 2
      and e = "\<lparr>world = \<lparr>blob = [1, 2, 3, 4, 5], fail_at = 0, fails_left = 0, conns = [0],
                 close_result = None\<rparr>, trace = []\<rparr>"]
    by (simp add: flaky_open_once_def)
  from ReadAt_private_connection [OF a b disjI2 [OF c] d, where T = flakyT and L = 2 and e = ?e]
    flaky_honours [of 0] flaky_progresses [of 0] a b c ReadAt_flaky_full ReadAt_flaky_short r
  show ?thesis
    by (auto simp: o split: option.splits)
qed

subsection \<open>Truncated streams and the retry bound\<close>

lemma opens_simps [simp]:
  "opens [] = []"
  "opens (EvOpen off # tr) = off # opens tr"
  "opens (EvRead c n # tr) = opens tr"
  "opens (EvClose c # tr) = opens tr"
  "opens (EvLog m err # tr) = opens tr"
  "opens (tr @ tr') = opens tr @ opens tr'"
  by (simp_all add: opens_def)




lemma flaky_hrs_sel [simp]:
  "closed (flaky_hrs sz p R j) = False"
  "offset (flaky_hrs sz p R j) = of_nat p"
  "errsWithNoProgress (flaky_hrs sz p R j) = of_nat j"
  "rc (flaky_hrs sz p R j) = R"
  "size_hrs (flaky_hrs sz p R j) = sz"
  "open_hrs (flaky_hrs sz p R j) = Some flaky_open"
  by (simp_all add: flaky_hrs_def)

lemma flaky_st_sel [simp]:
  "trace (flaky_st bs N f cs tr) = tr"
  "world (flaky_st bs N f cs tr) =
     \<lparr>blob = bs, fail_at = N, fails_left = f, conns = cs, close_result = None\<rparr>"
  by (simp_all add: flaky_st_def)





















end
